theory Spec2Isabelle
  imports Complex_Main
begin

section \<open>Environment: random numbers and the wall clock\<close>

text \<open>
  The program calls \<^verbatim>\<open>Math.random()\<close> and \<^verbatim>\<open>Date.now()\<close>. Both are modelled by
  explicit state passing: a world holds the sequence of values the two calls will return
  and a read position for each. \<^verbatim>\<open>Math.random()\<close> returns a number in \<open>[0,1)\<close>; the
  model takes the fractional part of an arbitrary real, so every world is a legal one and
  every value of \<open>[0,1)\<close> can occur. JavaScript numbers are modelled as reals
  (no NaN, no infinities, no rounding).
\<close>

record world =
  rnd :: "nat \<Rightarrow> real"
  rpos :: nat
  clk :: "nat \<Rightarrow> real"
  cpos :: nat

definition Math_random :: "world \<Rightarrow> real \<times> world" where
  "Math_random w = (frac (rnd w (rpos w)), w\<lparr>rpos := rpos w + 1\<rparr>)"

definition Date_now :: "world \<Rightarrow> real \<times> world" where
  "Date_now w = (clk w (cpos w), w\<lparr>cpos := cpos w + 1\<rparr>)"

section \<open>Data model (types.ts)\<close>

datatype DeviceStatus = ONLINE | OFFLINE | WARNING | ERROR

datatype DeviceType = SERVER | ROUTER | DATABASE | IOT

record MetricPoint =
  timestamp :: real
  cpu :: real
  ram :: real
  disk :: real
  network :: real

record Device =
  dev_id :: string
  name :: string
  dev_type :: DeviceType
  status :: DeviceStatus
  location :: string
  ip :: string
  metrics :: "MetricPoint list"
  lastUpdate :: real

datatype MetricType = CPU | RAM

record Alert =
  alert_id :: string
  deviceId :: string
  deviceName :: string
  metricType :: MetricType
  alert_value :: real
  alert_timestamp :: real

section \<open>Metric sample generator (utils/mockData)\<close>

text \<open>
  \<^verbatim>\<open>const drift = () => (Math.random() - 0.5) * 10\<close>
\<close>

definition drift :: "world \<Rightarrow> real \<times> world" where
  "drift w = (let (r, w1) = Math_random w in ((r - 0.5) * 10, w1))"

text \<open>
  One dimension of \<^verbatim>\<open>generateMetricPoint\<close>:
  \<^verbatim>\<open>Math.min(100, Math.max(0, (prev?.x ?? Math.random() * a + b) + drift()))\<close>.
  The seed draw happens only when there is no previous value, and before the drift draw.
\<close>

definition nextValue :: "real option \<Rightarrow> real \<Rightarrow> real \<Rightarrow> world \<Rightarrow> real \<times> world" where
  "nextValue prev a b w =
     (let (base, w1) = (case prev of
                          Some v \<Rightarrow> (v, w)
                        | None \<Rightarrow> (let (r, w') = Math_random w in (r * a + b, w')));
          (d, w2) = drift w1
      in (min 100 (max 0 (base + d)), w2))"

definition generateMetricPoint :: "MetricPoint option \<Rightarrow> world \<Rightarrow> MetricPoint \<times> world" where
  "generateMetricPoint prev w =
     (let (t, w0) = Date_now w;
          (c, w1) = nextValue (map_option cpu prev) 40 20 w0;
          (r, w2) = nextValue (map_option ram prev) 50 30 w1;
          (d, w3) = nextValue (map_option disk prev) 10 60 w2;
          (n, w4) = nextValue (map_option network prev) 20 10 w3
      in (\<lparr>timestamp = t, cpu = c, ram = r, disk = d, network = n\<rparr>, w4))"

section \<open>Device state store (utils/mockData)\<close>

definition DEVICE_NAMES :: "string list" where
  "DEVICE_NAMES =
     [''US-WEST-SRV-01'', ''EU-CENTRAL-DB-02'', ''AS-SOUTH-IOT-09'', ''US-EAST-RTR-04'',
      ''CLOUD-API-GW'', ''CACHE-REDIS-01'', ''NODE-WORKER-05'', ''LEGACY-MAINFRAME'',
      ''PROD-ELK-STACK'', ''MESSAGING-RABBIT'', ''STORAGE-SAN-01'', ''FIREWALL-PFE'']"

definition LOCATIONS :: "string list" where
  "LOCATIONS = [''San Francisco'', ''Frankfurt'', ''Mumbai'', ''New York'', ''Tokyo'', ''London'']"

definition DEVICE_TYPES :: "DeviceType list" where
  "DEVICE_TYPES = [SERVER, ROUTER, DATABASE, IOT]"

text \<open>
  \<^verbatim>\<open>Math.floor(Math.random() * n)\<close> used as an array index. The draw lies in \<open>[0,1)\<close>,
  so the index is below \<open>n\<close> (lemma \<open>randomIndex_less\<close> below) and the read is in range.
\<close>

definition randomIndex :: "nat \<Rightarrow> world \<Rightarrow> nat \<times> world" where
  "randomIndex n w = (let (r, w1) = Math_random w in (nat \<lfloor>r * real n\<rfloor>, w1))"

text \<open>
  The loop \<^verbatim>\<open>for (let j = 0; j < 20; j++) { lastMetric = generateMetricPoint(lastMetric);
  initialMetrics.push(lastMetric); }\<close>, with the number of remaining iterations as its
  first argument.
\<close>

fun initialMetricsLoop ::
  "nat \<Rightarrow> MetricPoint option \<Rightarrow> MetricPoint list \<Rightarrow> world \<Rightarrow> MetricPoint list \<times> world" where
  "initialMetricsLoop 0 lastMetric initialMetrics w = (initialMetrics, w)"
| "initialMetricsLoop (Suc j) lastMetric initialMetrics w =
     (let (m, w1) = generateMetricPoint lastMetric w
      in initialMetricsLoop j (Some m) (initialMetrics @ [m]) w1)"

text \<open>
  The body of the \<^verbatim>\<open>map\<close> callback of \<^verbatim>\<open>createInitialDevices\<close> for index \<open>i\<close>. The
  template literals format numbers; the formatter \<open>ns\<close> (ECMAScript's number-to-string
  conversion) is a parameter of the model.
\<close>

definition createDevice :: "(real \<Rightarrow> string) \<Rightarrow> nat \<Rightarrow> world \<Rightarrow> Device \<times> world" where
  "createDevice ns i w =
     (let (ti, w1) = randomIndex 4 w;
          (initialMetrics, w2) = initialMetricsLoop 20 None [] w1;
          (r, w3) = Math_random w2;
          (li, w4) = randomIndex (length LOCATIONS) w3;
          (a, w5) = randomIndex 254 w4;
          (b, w6) = randomIndex 254 w5;
          (t, w7) = Date_now w6
      in (\<lparr>dev_id = ''dev-'' @ ns (real i),
           name = DEVICE_NAMES ! (i mod length DEVICE_NAMES),
           dev_type = DEVICE_TYPES ! ti,
           status = (if r > 0.8 then WARNING else ONLINE),
           location = LOCATIONS ! li,
           ip = ''192.168.'' @ ns (real a) @ ''.'' @ ns (real b),
           metrics = initialMetrics,
           lastUpdate = t\<rparr>, w7))"

fun createFrom :: "(real \<Rightarrow> string) \<Rightarrow> nat \<Rightarrow> nat \<Rightarrow> world \<Rightarrow> Device list \<times> world" where
  "createFrom ns i 0 w = ([], w)"
| "createFrom ns i (Suc n) w =
     (let (d, w1) = createDevice ns i w;
          (ds, w2) = createFrom ns (Suc i) n w1
      in (d # ds, w2))"

definition createInitialDevices :: "(real \<Rightarrow> string) \<Rightarrow> nat \<Rightarrow> world \<Rightarrow> Device list \<times> world" where
  "createInitialDevices ns count w = createFrom ns 0 count w"

text \<open>The status roll of \<^verbatim>\<open>updateDevices\<close>, with the branches in the source's order.\<close>

definition rollStatus :: "real \<Rightarrow> DeviceStatus \<Rightarrow> DeviceStatus" where
  "rollStatus roll st =
     (if roll > 0.98 then WARNING
      else if roll > 0.995 then ERROR
      else if roll > 0.999 then OFFLINE
      else if roll < 0.1 \<and> st \<noteq> ONLINE then ONLINE
      else st)"

text \<open>\<^verbatim>\<open>xs[xs.length - 1]\<close>, which is \<^verbatim>\<open>undefined\<close> on an empty array.\<close>

definition lastOpt :: "'a list \<Rightarrow> 'a option" where
  "lastOpt xs = (if xs = [] then None else Some (last xs))"

definition updateDevice :: "Device \<Rightarrow> world \<Rightarrow> Device \<times> world" where
  "updateDevice d w =
     (let (roll, w1) = Math_random w;
          newStatus = rollStatus roll (status d);
          (newMetric, w2) = generateMetricPoint (lastOpt (metrics d)) w1;
          updatedMetrics = drop 1 (metrics d) @ [newMetric];
          (t, w3) = Date_now w2
      in (d\<lparr>status := newStatus, metrics := updatedMetrics, lastUpdate := t\<rparr>, w3))"

fun updateDevices :: "Device list \<Rightarrow> world \<Rightarrow> Device list \<times> world" where
  "updateDevices [] w = ([], w)"
| "updateDevices (d # ds) w =
     (let (d', w1) = updateDevice d w;
          (ds', w2) = updateDevices ds w1
      in (d' # ds', w2))"

text \<open>\<open>n\<close> successive calls of \<^verbatim>\<open>updateDevices\<close>, as the interval timer makes them.\<close>

fun advance :: "nat \<Rightarrow> Device list \<Rightarrow> world \<Rightarrow> Device list \<times> world" where
  "advance 0 ds w = (ds, w)"
| "advance (Suc n) ds w = (let (ds', w1) = updateDevices ds w in advance n ds' w1)"

section \<open>Alert evaluation and lifecycle (App)\<close>

text \<open>
  The component state the alerting code reads and writes. The remaining state of the
  component (search text, filters, sorting, selection) is presentation only.
\<close>

record app_state =
  devices :: "Device list"
  activeAlerts :: "Alert list"
  dismissedAlertIds :: "string set"
  cpuThreshold :: real
  ramThreshold :: real
  alertDuration :: real

text \<open>\<^verbatim>\<open>Math.max(1, Math.ceil(alertDuration / 3))\<close>\<close>

definition pointsNeeded :: "real \<Rightarrow> int" where
  "pointsNeeded duration = max 1 \<lceil>duration / 3\<rceil>"

text \<open>
  \<^verbatim>\<open>Array.prototype.slice(start)\<close> for an integer \<open>start\<close>: a negative start counts from
  the end and is cut off at the beginning of the array, a positive one is cut off at its end.
\<close>

definition slice_from :: "int \<Rightarrow> 'a list \<Rightarrow> 'a list" where
  "slice_from start xs =
     (let len = int (length xs);
          k = (if start < 0 then max (len + start) 0 else min start len)
      in drop (nat k) xs)"

definition metricName :: "MetricType \<Rightarrow> string" where
  "metricName m = (case m of CPU \<Rightarrow> ''CPU'' | RAM \<Rightarrow> ''RAM'')"

text \<open>
  The template literal \<^verbatim>\<open>`${device.id}-CPU-${cpuThreshold}-${alertDuration}`\<close> (and the
  same with \<^verbatim>\<open>RAM\<close> and \<^verbatim>\<open>ramThreshold\<close>); \<open>ns\<close> formats the two numbers.
\<close>

definition alertId :: "(real \<Rightarrow> string) \<Rightarrow> string \<Rightarrow> MetricType \<Rightarrow> real \<Rightarrow> real \<Rightarrow> string" where
  "alertId ns device_id m threshold duration =
     device_id @ ''-'' @ metricName m @ ''-'' @ ns threshold @ ''-'' @ ns duration"

definition recentMetrics :: "app_state \<Rightarrow> Device \<Rightarrow> MetricPoint list" where
  "recentMetrics s device = slice_from (- pointsNeeded (alertDuration s)) (metrics device)"

definition cpuExceeded :: "app_state \<Rightarrow> Device \<Rightarrow> bool" where
  "cpuExceeded s device = list_all (\<lambda>m. cpu m > cpuThreshold s) (recentMetrics s device)"

definition ramExceeded :: "app_state \<Rightarrow> Device \<Rightarrow> bool" where
  "ramExceeded s device = list_all (\<lambda>m. ram m > ramThreshold s) (recentMetrics s device)"

text \<open>
  The body of \<^verbatim>\<open>devices.forEach(device => ...)\<close> in the alert effect: the alerts it
  pushes onto \<^verbatim>\<open>newAlerts\<close>, in order. \<^verbatim>\<open>latestMetric\<close> is read only behind the length
  guard, where the history has at least \<open>pointsNeeded \<ge> 1\<close> samples.
\<close>

definition checkDevice ::
  "(real \<Rightarrow> string) \<Rightarrow> app_state \<Rightarrow> Device \<Rightarrow> world \<Rightarrow> Alert list \<times> world" where
  "checkDevice ns s device w =
     (if int (length (metrics device)) < pointsNeeded (alertDuration s) then ([], w)
      else
        let latestMetric = last (metrics device);
            (cpuAlerts, w1) =
              (if cpuExceeded s device then
                 (let aid = alertId ns (dev_id device) CPU (cpuThreshold s) (alertDuration s)
                  in if aid \<notin> dismissedAlertIds s then
                       (let (t, w') = Date_now w
                        in ([\<lparr>alert_id = aid, deviceId = dev_id device,
                               deviceName = name device, metricType = CPU,
                               alert_value = cpu latestMetric, alert_timestamp = t\<rparr>], w'))
                     else ([], w))
               else ([], w));
            (ramAlerts, w2) =
              (if ramExceeded s device then
                 (let aid = alertId ns (dev_id device) RAM (ramThreshold s) (alertDuration s)
                  in if aid \<notin> dismissedAlertIds s then
                       (let (t, w') = Date_now w1
                        in ([\<lparr>alert_id = aid, deviceId = dev_id device,
                               deviceName = name device, metricType = RAM,
                               alert_value = ram latestMetric, alert_timestamp = t\<rparr>], w'))
                     else ([], w1))
               else ([], w1))
        in (cpuAlerts @ ramAlerts, w2))"

text \<open>The whole \<^verbatim>\<open>forEach\<close>: the final content of \<^verbatim>\<open>newAlerts\<close>.\<close>

fun evaluate ::
  "(real \<Rightarrow> string) \<Rightarrow> app_state \<Rightarrow> Device list \<Rightarrow> world \<Rightarrow> Alert list \<times> world" where
  "evaluate ns s [] w = ([], w)"
| "evaluate ns s (device # rest) w =
     (let (as, w1) = checkDevice ns s device w;
          (bs, w2) = evaluate ns s rest w1
      in (as @ bs, w2))"

text \<open>The updater passed to \<^verbatim>\<open>setActiveAlerts\<close> by the effect ("merge only unique new alerts").\<close>

definition mergeAlerts :: "Alert list \<Rightarrow> Alert list \<Rightarrow> Alert list" where
  "mergeAlerts prev newAlerts =
     (let existingIds = set (map alert_id prev);
          filteredNew = filter (\<lambda>a. alert_id a \<notin> existingIds) newAlerts
      in if length filteredNew = 0 then prev else prev @ filteredNew)"

definition alertEffect :: "(real \<Rightarrow> string) \<Rightarrow> app_state \<Rightarrow> world \<Rightarrow> app_state \<times> world" where
  "alertEffect ns s w =
     (if length (devices s) = 0 then (s, w)
      else
        let (newAlerts, w1) = evaluate ns s (devices s) w
        in (s\<lparr>activeAlerts := mergeAlerts (activeAlerts s) newAlerts\<rparr>, w1))"

definition handleDismissAlert :: "string \<Rightarrow> app_state \<Rightarrow> app_state" where
  "handleDismissAlert k s =
     s\<lparr>dismissedAlertIds := insert k (dismissedAlertIds s),
       activeAlerts := filter (\<lambda>a. alert_id a \<noteq> k) (activeAlerts s)\<rparr>"

text \<open>
  What can happen to the component after it is mounted: the interval timer fires, the
  operator dismisses an alert, or the operator edits one of the three number inputs (the
  handler stores \<^verbatim>\<open>Number(e.target.value)\<close>). After each state change the alert effect
  runs again, because one of its dependencies changed; storing a number equal to the
  current one is no state change and runs nothing.
\<close>

datatype event =
    Tick
  | DismissAlert string
  | SetCpuThreshold real
  | SetRamThreshold real
  | SetAlertDuration real

fun step :: "(real \<Rightarrow> string) \<Rightarrow> event \<Rightarrow> app_state \<times> world \<Rightarrow> app_state \<times> world" where
  "step ns Tick (s, w) =
     (let (ds, w1) = updateDevices (devices s) w in alertEffect ns (s\<lparr>devices := ds\<rparr>) w1)"
| "step ns (DismissAlert k) (s, w) = alertEffect ns (handleDismissAlert k s) w"
| "step ns (SetCpuThreshold v) (s, w) =
     (if v = cpuThreshold s then (s, w) else alertEffect ns (s\<lparr>cpuThreshold := v\<rparr>) w)"
| "step ns (SetRamThreshold v) (s, w) =
     (if v = ramThreshold s then (s, w) else alertEffect ns (s\<lparr>ramThreshold := v\<rparr>) w)"
| "step ns (SetAlertDuration v) (s, w) =
     (if v = alertDuration s then (s, w) else alertEffect ns (s\<lparr>alertDuration := v\<rparr>) w)"

fun run :: "(real \<Rightarrow> string) \<Rightarrow> event list \<Rightarrow> app_state \<times> world \<Rightarrow> app_state \<times> world" where
  "run ns [] sw = sw"
| "run ns (e # es) sw = run ns es (step ns e sw)"

text \<open>The state at mount, before the first effect has filled in the devices.\<close>

definition initialState :: app_state where
  "initialState =
     \<lparr>devices = [], activeAlerts = [], dismissedAlertIds = {},
      cpuThreshold = 90, ramThreshold = 90, alertDuration = 60\<rparr>"

text \<open>
  The mount effect \<^verbatim>\<open>setDevices(createInitialDevices(16))\<close>, followed by the alert effect
  that the new device list triggers.
\<close>

definition mount :: "(real \<Rightarrow> string) \<Rightarrow> world \<Rightarrow> app_state \<times> world" where
  "mount ns w =
     (let (ds, w1) = createInitialDevices ns 16 w
      in alertEffect ns (initialState\<lparr>devices := ds\<rparr>) w1)"

section \<open>Number formatting\<close>

text \<open>
  ECMAScript's number-to-string conversion is part of the language runtime, not of this
  program, and enters the model as the parameter \<open>ns\<close>. What the proofs below need of it
  is collected in \<open>numfmt_ok V ns\<close>, for a set \<open>V\<close> of numbers in use: distinct numbers of
  \<open>V\<close> have distinct strings; no string, followed by a minus sign, begins another string
  (the conversion writes a minus sign only in front or directly after the exponent mark
  \<open>e\<close>, never after a digit); and the strings are made of digits, the decimal point, the
  signs and the exponent mark only.
\<close>

definition numChars :: "char set" where
  "numChars = set ''0123456789.e+-''"

definition numfmt_ok :: "real set \<Rightarrow> (real \<Rightarrow> string) \<Rightarrow> bool" where
  "numfmt_ok V ns \<longleftrightarrow>
     inj_on ns V \<and>
     (\<forall>a\<in>V. \<forall>b\<in>V. \<forall>u. ns b \<noteq> ns a @ CHR ''-'' # u) \<and>
     (\<forall>a\<in>V. set (ns a) \<subseteq> numChars)"

text \<open>
  The conversion on integers of magnitude below \<open>10\<^sup>2\<^sup>1\<close>, where it writes plain decimal
  digits with a leading minus sign for a negative number. It instantiates \<open>ns\<close> in the
  examples.
\<close>

fun natStr :: "nat \<Rightarrow> string" where
  "natStr n =
     (if n < 10 then [''0123456789'' ! n]
      else natStr (n div 10) @ [''0123456789'' ! (n mod 10)])"

declare natStr.simps [simp del]

definition intStr :: "real \<Rightarrow> string" where
  "intStr x = (if x < 0 then CHR ''-'' # natStr (nat \<lfloor>- x\<rfloor>) else natStr (nat \<lfloor>x\<rfloor>))"

text \<open>The number a string of decimal digits denotes; it reads back what \<open>natStr\<close> writes.\<close>

definition strVal :: "string \<Rightarrow> nat" where
  "strVal cs = foldl (\<lambda>a c. 10 * a + (of_char c - 48)) 0 cs"

text \<open>
  The conversion on decimal numbers with at most 20 digits after the point, written
  positionally without an exponent, as ECMAScript writes a number of magnitude from
  \<open>10\<^sup>-\<^sup>6\<close> up to \<open>10\<^sup>2\<^sup>1\<close>: the integer digits, then, unless the number is whole, a point
  and the digits of the fraction without trailing zeros. On whole numbers it is
  \<open>intStr\<close>. No conversion can tell all real numbers apart (there are only countably
  many strings); the numbers an input field can hold are decimal.
\<close>

fun fracDigits :: "nat \<Rightarrow> real \<Rightarrow> string" where
  "fracDigits 0 y = []"
| "fracDigits (Suc n) y =
     (if y = 0 then []
      else (''0123456789'' ! nat \<lfloor>10 * y\<rfloor>) # fracDigits n (frac (10 * y)))"

definition decBody :: "real \<Rightarrow> string" where
  "decBody a =
     natStr (nat \<lfloor>a\<rfloor>) @ (if frac a = 0 then [] else CHR ''.'' # fracDigits 20 (frac a))"

definition decStr :: "real \<Rightarrow> string" where
  "decStr x = (if x < 0 then CHR ''-'' # decBody (- x) else decBody x)"

definition decimals :: "real set" where
  "decimals = {x. x * 10 ^ 20 \<in> \<int>}"

text \<open>Reading a decimal string back.\<close>

fun fracVal :: "string \<Rightarrow> real" where
  "fracVal [] = 0"
| "fracVal (c # cs) = (real (of_char c - 48) + fracVal cs) / 10"

definition absVal :: "string \<Rightarrow> real" where
  "absVal cs =
     real (strVal (takeWhile (\<lambda>c. c \<noteq> CHR ''.'') cs)) +
     fracVal (drop 1 (dropWhile (\<lambda>c. c \<noteq> CHR ''.'') cs))"

definition decVal :: "string \<Rightarrow> real" where
  "decVal cs =
     (case cs of [] \<Rightarrow> 0 | c # rest \<Rightarrow> if c = CHR ''-'' then - absVal rest else absVal cs)"

section \<open>Example inputs\<close>

definition world0 :: world where
  "world0 = \<lparr>rnd = (\<lambda>n. 1 / 2), rpos = 0, clk = (\<lambda>n. 1000 + real n), cpos = 0\<rparr>"

definition sample :: "real \<Rightarrow> real \<Rightarrow> MetricPoint" where
  "sample c r = \<lparr>timestamp = 0, cpu = c, ram = r, disk = 65, network = 20\<rparr>"

definition device0 :: "MetricPoint list \<Rightarrow> Device" where
  "device0 ms =
     \<lparr>dev_id = ''dev-0'', name = ''US-WEST-SRV-01'', dev_type = SERVER, status = ONLINE,
      location = ''Tokyo'', ip = ''192.168.1.2'', metrics = ms, lastUpdate = 0\<rparr>"

definition state6 :: app_state where
  "state6 = initialState\<lparr>alertDuration := 6\<rparr>"

definition device1 :: Device where
  "device1 = device0 [sample 95 40, sample 97 45]"

definition state6_dismissed :: app_state where
  "state6_dismissed = state6\<lparr>dismissedAlertIds := {''dev-0-CPU-90-6''}\<rparr>"

definition alert1 :: Alert where
  "alert1 = \<lparr>alert_id = ''dev-0-CPU-90-6'', deviceId = ''dev-0'', deviceName = ''US-WEST-SRV-01'',
             metricType = CPU, alert_value = 95, alert_timestamp = 500\<rparr>"

definition alert1_again :: Alert where
  "alert1_again = alert1\<lparr>alert_value := 97, alert_timestamp := 1000\<rparr>"

definition alert2 :: Alert where
  "alert2 = \<lparr>alert_id = ''dev-0-RAM-90-6'', deviceId = ''dev-0'', deviceName = ''US-WEST-SRV-01'',
             metricType = RAM, alert_value = 93, alert_timestamp = 1001\<rparr>"

definition state6_active :: app_state where
  "state6_active = state6\<lparr>devices := [device1], activeAlerts := [alert1]\<rparr>"

definition state6_after :: app_state where
  "state6_after =
     \<lparr>devices = [(device0 [\<lparr>timestamp = 1000, cpu = 97, ram = 45, disk = 65, network = 20\<rparr>,
                            \<lparr>timestamp = 1002, cpu = 97, ram = 45, disk = 65, network = 20\<rparr>])
                   \<lparr>lastUpdate := 1003\<rparr>],
      activeAlerts = [], dismissedAlertIds = {''dev-0-CPU-90-6''},
      cpuThreshold = 90, ramThreshold = 90, alertDuration = 6\<rparr>"

definition state6_devices :: app_state where
  "state6_devices = state6\<lparr>devices := [device1]\<rparr>"

definition device3 :: Device where
  "device3 = device0 [sample 91 40, sample 95 40, sample 97 45]"

definition state6_raised :: app_state where
  "state6_raised = state6\<lparr>cpuThreshold := 181 / 2, dismissedAlertIds := {''dev-0-CPU-90-6''}\<rparr>"

section \<open>Properties of the generator\<close>

lemma nextValue_range:
  "0 \<le> fst (nextValue prev a b w) \<and> fst (nextValue prev a b w) \<le> 100"
  by (simp add: nextValue_def Let_def split: prod.splits option.splits)

text \<open>
  Claim C6. Every generated sample, whether seeded without a previous sample or derived
  from any previous sample, under any random draws and any clock, has each of cpu, ram,
  disk and network in \<open>[0,100]\<close>.
\<close>

theorem generateMetricPoint_clamped:
  "0 \<le> cpu (fst (generateMetricPoint prev w)) \<and> cpu (fst (generateMetricPoint prev w)) \<le> 100 \<and>
   0 \<le> ram (fst (generateMetricPoint prev w)) \<and> ram (fst (generateMetricPoint prev w)) \<le> 100 \<and>
   0 \<le> disk (fst (generateMetricPoint prev w)) \<and> disk (fst (generateMetricPoint prev w)) \<le> 100 \<and>
   0 \<le> network (fst (generateMetricPoint prev w)) \<and> network (fst (generateMetricPoint prev w)) \<le> 100"
proof -
  obtain t w0 where t: "Date_now w = (t, w0)" by (cases "Date_now w")
  obtain c w1 where c: "nextValue (map_option cpu prev) 40 20 w0 = (c, w1)"
    by (cases "nextValue (map_option cpu prev) 40 20 w0")
  obtain r w2 where r: "nextValue (map_option ram prev) 50 30 w1 = (r, w2)"
    by (cases "nextValue (map_option ram prev) 50 30 w1")
  obtain d w3 where d: "nextValue (map_option disk prev) 10 60 w2 = (d, w3)"
    by (cases "nextValue (map_option disk prev) 10 60 w2")
  obtain n w4 where n: "nextValue (map_option network prev) 20 10 w3 = (n, w4)"
    by (cases "nextValue (map_option network prev) 20 10 w3")
  have g: "fst (generateMetricPoint prev w) =
             \<lparr>timestamp = t, cpu = c, ram = r, disk = d, network = n\<rparr>"
    by (simp add: generateMetricPoint_def t c r d n)
  have "0 \<le> c \<and> c \<le> 100"
    using nextValue_range [of "map_option cpu prev" 40 20 w0] by (simp add: c)
  moreover have "0 \<le> r \<and> r \<le> 100"
    using nextValue_range [of "map_option ram prev" 50 30 w1] by (simp add: r)
  moreover have "0 \<le> d \<and> d \<le> 100"
    using nextValue_range [of "map_option disk prev" 10 60 w2] by (simp add: d)
  moreover have "0 \<le> n \<and> n \<le> 100"
    using nextValue_range [of "map_option network prev" 20 10 w3] by (simp add: n)
  ultimately show ?thesis by (simp add: g)
qed

section \<open>Properties of the device state store\<close>

lemma Math_random_range: "0 \<le> fst (Math_random w) \<and> fst (Math_random w) < 1"
  by (simp add: Math_random_def frac_lt_1)

lemma randomIndex_less: "0 < n \<Longrightarrow> fst (randomIndex n w) < n"
proof -
  assume n: "0 < n"
  let ?r = "fst (Math_random w)"
  have r: "0 \<le> ?r" "?r < 1" using Math_random_range [of w] by simp_all
  have "?r * real n < real n" using r n by simp
  then have "\<lfloor>?r * real n\<rfloor> < int n" by (simp add: floor_less_iff)
  moreover have "0 \<le> \<lfloor>?r * real n\<rfloor>" using r by simp
  ultimately have "nat \<lfloor>?r * real n\<rfloor> < n" by linarith
  then show ?thesis by (simp add: randomIndex_def split_beta)
qed

lemma updateDevices_length: "length (fst (updateDevices ds w)) = length ds"
  by (induction ds arbitrary: w) (simp_all add: split_beta)

lemma updateDevice_frame:
  "fst (updateDevice d w) =
     d\<lparr>status := status (fst (updateDevice d w)),
       metrics := metrics (fst (updateDevice d w)),
       lastUpdate := lastUpdate (fst (updateDevice d w))\<rparr>"
  by (simp add: updateDevice_def split_beta Let_def)

lemma updateDevice_metrics:
  "metrics (fst (updateDevice d w)) =
     drop 1 (metrics d) @ [fst (generateMetricPoint (lastOpt (metrics d)) (snd (Math_random w)))]"
  by (simp add: updateDevice_def split_beta Let_def)

lemma initialMetricsLoop_length:
  "length (fst (initialMetricsLoop j lm acc w)) = length acc + j"
  by (induction j arbitrary: lm acc w) (simp_all add: split_beta)

lemma createDevice_metrics_length: "length (metrics (fst (createDevice ns i w))) = 20"
  by (simp add: createDevice_def split_beta initialMetricsLoop_length)

lemma createFrom_length: "length (fst (createFrom ns i n w)) = n"
  by (induction n arbitrary: i w) (simp_all add: split_beta)

lemma createFrom_metrics_length:
  "\<forall>d \<in> set (fst (createFrom ns i n w)). length (metrics d) = 20"
  by (induction n arbitrary: i w) (simp_all add: split_beta createDevice_metrics_length)

lemma updateDevices_metrics_length:
  "\<forall>d \<in> set ds. length (metrics d) = 20 \<Longrightarrow>
   \<forall>d \<in> set (fst (updateDevices ds w)). length (metrics d) = 20"
  by (induction ds arbitrary: w) (simp_all add: split_beta updateDevice_metrics)

lemma advance_length: "length (fst (advance n ds w)) = length ds"
  by (induction n arbitrary: ds w) (simp_all add: split_beta updateDevices_length)

lemma advance_metrics_length:
  "\<forall>d \<in> set ds. length (metrics d) = 20 \<Longrightarrow>
   \<forall>d \<in> set (fst (advance n ds w)). length (metrics d) = 20"
proof (induction n arbitrary: ds w)
  case 0
  then show ?case by simp
next
  case (Suc n)
  have "\<forall>d \<in> set (fst (updateDevices ds w)). length (metrics d) = 20"
    using Suc.prems by (rule updateDevices_metrics_length)
  then show ?case by (simp add: split_beta Suc.IH)
qed

lemma updateDevice_history_length:
  "length (metrics (fst (updateDevice d w))) = (if metrics d = [] then 1 else length (metrics d))"
  by (cases "metrics d") (simp_all add: updateDevice_metrics)

lemma createFrom_ids:
  "map dev_id (fst (createFrom ns i n w)) = map (\<lambda>k. ''dev-'' @ ns (real k)) [i..<i + n]"
proof (induction n arbitrary: i w)
  case 0
  show ?case by simp
next
  case (Suc n)
  have "dev_id (fst (createDevice ns i w)) = ''dev-'' @ ns (real i)"
    by (simp add: createDevice_def split_beta)
  moreover have "[i..<i + Suc n] = i # [Suc i..<Suc i + n]"
    by (simp add: upt_conv_Cons)
  ultimately show ?case
    using Suc.IH [of "Suc i" "snd (createDevice ns i w)"] by (simp add: split_beta)
qed

lemma createInitialDevices_distinct_ids:
  assumes "inj_on ns (real ` {..<count})"
  shows "distinct (map dev_id (fst (createInitialDevices ns count w)))"
proof -
  have "inj_on (\<lambda>k. ''dev-'' @ ns (real k)) {..<count}"
  proof (rule inj_onI)
    fix x y
    assume xy: "x \<in> {..<count}" "y \<in> {..<count}" "''dev-'' @ ns (real x) = ''dev-'' @ ns (real y)"
    then have "ns (real x) = ns (real y)" by simp
    then have "real x = real y" using assms xy(1,2) by (meson imageI inj_onD)
    then show "x = y" by simp
  qed
  then have "distinct (map (\<lambda>k. ''dev-'' @ ns (real k)) [0..<0 + count])"
    by (simp add: distinct_map atLeast_upt [symmetric] lessThan_atLeast0)
  then show ?thesis
    by (simp only: createInitialDevices_def createFrom_ids)
qed

lemma updateDevices_history:
  "list_all2 (\<lambda>d d'. \<exists>m. metrics d' = drop 1 (metrics d) @ [m]) ds (fst (updateDevices ds w))"
  by (induction ds arbitrary: w) (simp_all add: split_beta updateDevice_metrics)

lemma frac_half: "frac (1 / 2 :: real) = 1 / 2"
  by (simp add: frac_def)

lemma updateDevices_history_length:
  "list_all2 (\<lambda>d d'. length (metrics d') = (if metrics d = [] then 1 else length (metrics d)))
     ds (fst (updateDevices ds w))"
  by (induction ds arbitrary: w) (simp_all add: split_beta updateDevice_history_length)

text \<open>
  Claim C7, amended. Every device of a fleet made by \<^verbatim>\<open>createInitialDevices\<close> and
  advanced by any number \<open>n\<close> of \<^verbatim>\<open>updateDevices\<close> calls has a history of length
  \<open>min (n + 20) 20\<close>, hence at most 20 (the fleet is created with 20 samples per device).
  On each \<^verbatim>\<open>updateDevices\<close> call, of any fleet, each device's history becomes the old one
  without its oldest sample and with one new sample appended. The oldest sample is dropped
  whatever the length: a non-empty history keeps its length, also below 20, and only an
  empty history grows, to one sample.
\<close>

theorem history_bound:
  "(case createInitialDevices ns count w of (ds0, w0) \<Rightarrow>
     case advance n ds0 w0 of (ds, w1) \<Rightarrow>
       \<forall>d \<in> set ds. length (metrics d) \<le> 20 \<and> length (metrics d) = min (n + 20) 20) \<and>
   list_all2 (\<lambda>d d'. \<exists>m. metrics d' = drop 1 (metrics d) @ [m])
     fleet (fst (updateDevices fleet w')) \<and>
   list_all2 (\<lambda>d d'. length (metrics d') = (if metrics d = [] then 1 else length (metrics d)))
     fleet (fst (updateDevices fleet w'))"
proof -
  obtain ds0 w0 where c: "createInitialDevices ns count w = (ds0, w0)"
    by (cases "createInitialDevices ns count w")
  obtain ds w1 where a: "advance n ds0 w0 = (ds, w1)"
    by (cases "advance n ds0 w0")
  have "\<forall>d \<in> set ds0. length (metrics d) = 20"
    using createFrom_metrics_length [of ns 0 count w] by (simp add: createInitialDevices_def [symmetric] c)
  then have full: "\<forall>d \<in> set ds. length (metrics d) = 20"
    using advance_metrics_length [of ds0 n w0] by (simp add: a)
  then have 1: "case createInitialDevices ns count w of (ds0, w0) \<Rightarrow>
     case advance n ds0 w0 of (ds, w1) \<Rightarrow>
       \<forall>d \<in> set ds. length (metrics d) \<le> 20 \<and> length (metrics d) = min (n + 20) 20"
    by (simp add: c a)
  from 1 updateDevices_history [of fleet w'] updateDevices_history_length [of fleet w']
  show ?thesis by blast
qed

theorem history_bound_witness:
  "(case createInitialDevices intStr 2 world0 of (ds0, w0) \<Rightarrow>
     case advance 3 ds0 w0 of (ds, w1) \<Rightarrow>
       length ds = 2 \<and>
       (\<forall>d \<in> set ds. length (metrics d) \<le> 20 \<and> length (metrics d) = min (3 + 20) 20)) \<and>
   list_all2 (\<lambda>d d'. \<exists>m. metrics d' = drop 1 (metrics d) @ [m])
     [device3, device0 []] (fst (updateDevices [device3, device0 []] world0)) \<and>
   list_all2 (\<lambda>d d'. length (metrics d') = (if metrics d = [] then 1 else length (metrics d)))
     [device3, device0 []] (fst (updateDevices [device3, device0 []] world0)) \<and>
   length (metrics device3) = 3 \<and> metrics (device0 []) = []"
proof -
  have "length (fst (advance 3 (fst (createInitialDevices intStr 2 world0))
                       (snd (createInitialDevices intStr 2 world0)))) = 2"
    by (simp add: advance_length createInitialDevices_def createFrom_length)
  moreover have "length (metrics device3) = 3" "metrics (device0 []) = []"
    by (simp_all add: device3_def device0_def)
  ultimately show ?thesis
    using history_bound [where ns = intStr and count = 2 and w = world0 and n = 3
        and fleet = "[device3, device0 []]" and w' = world0]
    by (simp add: split_beta)
qed

text \<open>
  A history of three samples, below the capacity of 20, loses its oldest sample all the
  same and has three samples again after the call: it does not grow.
\<close>

theorem history_bound_counterexample:
  "length (metrics device3) = 3 \<and>
   metrics device3 = [sample 91 40, sample 95 40, sample 97 45] \<and>
   map metrics (fst (updateDevices [device3] world0)) =
     [[sample 95 40, sample 97 45,
       \<lparr>timestamp = 1000, cpu = 97, ram = 45, disk = 65, network = 20\<rparr>]]"
  by (simp add: device3_def device0_def sample_def world0_def updateDevice_def Math_random_def
      frac_half rollStatus_def generateMetricPoint_def nextValue_def drift_def lastOpt_def
      Date_now_def Let_def)

text \<open>
  Claim C10. \<^verbatim>\<open>updateDevices\<close> returns as many devices as it was given, in the same
  order, and each returned device is the given one with at most status, metrics and
  lastUpdate replaced: id, name, type, location and ip are unchanged.
\<close>

theorem updateDevices_frame:
  "length (fst (updateDevices ds w)) = length ds \<and>
   list_all2 (\<lambda>d d'. \<exists>st ms t. d' = d\<lparr>status := st, metrics := ms, lastUpdate := t\<rparr>)
     ds (fst (updateDevices ds w)) \<and>
   map dev_id (fst (updateDevices ds w)) = map dev_id ds \<and>
   map name (fst (updateDevices ds w)) = map name ds \<and>
   map dev_type (fst (updateDevices ds w)) = map dev_type ds \<and>
   map location (fst (updateDevices ds w)) = map location ds \<and>
   map ip (fst (updateDevices ds w)) = map ip ds"
proof (induction ds arbitrary: w)
  case Nil
  show ?case by simp
next
  case (Cons d ds)
  have "\<exists>st ms t. fst (updateDevice d w) = d\<lparr>status := st, metrics := ms, lastUpdate := t\<rparr>"
    using updateDevice_frame [of d w] by blast
  moreover have "dev_id (fst (updateDevice d w)) = dev_id d" "name (fst (updateDevice d w)) = name d"
    "dev_type (fst (updateDevice d w)) = dev_type d" "location (fst (updateDevice d w)) = location d"
    "ip (fst (updateDevice d w)) = ip d"
    by (simp_all add: updateDevice_def split_beta Let_def)
  ultimately show ?case
    using Cons.IH [of "snd (updateDevice d w)"] by (simp add: split_beta)
qed

section \<open>Properties of the alert evaluator\<close>

lemma pointsNeeded_ge_1: "1 \<le> pointsNeeded duration"
  by (simp add: pointsNeeded_def)

lemma pointsNeeded_le_iff:
  "pointsNeeded duration \<le> n \<longleftrightarrow> 1 \<le> n \<and> duration \<le> 3 * real_of_int n"
proof -
  have "\<lceil>duration / 3\<rceil> \<le> n \<longleftrightarrow> duration / 3 \<le> real_of_int n"
    by (rule ceiling_le_iff)
  also have "\<dots> \<longleftrightarrow> duration \<le> 3 * real_of_int n"
    by (simp add: field_simps)
  finally show ?thesis by (auto simp: pointsNeeded_def)
qed

lemma recentMetrics_window:
  assumes "pointsNeeded (alertDuration s) \<le> int (length (metrics device))"
  shows "recentMetrics s device =
           drop (length (metrics device) - nat (pointsNeeded (alertDuration s))) (metrics device)"
proof -
  have "nat (int (length (metrics device)) - pointsNeeded (alertDuration s)) =
          length (metrics device) - nat (pointsNeeded (alertDuration s))"
    using pointsNeeded_ge_1 [of "alertDuration s"] by linarith
  then show ?thesis
    using assms pointsNeeded_ge_1 [of "alertDuration s"]
    by (simp add: recentMetrics_def slice_from_def Let_def max_def)
qed

lemma checkDevice_short:
  "int (length (metrics device)) < pointsNeeded (alertDuration s) \<Longrightarrow>
   checkDevice ns s device w = ([], w)"
  by (simp add: checkDevice_def)

lemma evaluate_append:
  "evaluate ns s (xs @ ys) w =
     (fst (evaluate ns s xs w) @ fst (evaluate ns s ys (snd (evaluate ns s xs w))),
      snd (evaluate ns s ys (snd (evaluate ns s xs w))))"
  by (induction xs arbitrary: w) (simp_all add: split_beta)

lemma cpuExceeded_window:
  assumes "pointsNeeded (alertDuration s) \<le> int (length (metrics device))"
  shows "cpuExceeded s device \<longleftrightarrow>
         (\<forall>m \<in> set (drop (length (metrics device) - nat (pointsNeeded (alertDuration s)))
                       (metrics device)). cpu m > cpuThreshold s)"
  by (simp add: cpuExceeded_def recentMetrics_window [OF assms] list_all_iff)

lemma ramExceeded_window:
  assumes "pointsNeeded (alertDuration s) \<le> int (length (metrics device))"
  shows "ramExceeded s device \<longleftrightarrow>
         (\<forall>m \<in> set (drop (length (metrics device) - nat (pointsNeeded (alertDuration s)))
                       (metrics device)). ram m > ramThreshold s)"
  by (simp add: ramExceeded_def recentMetrics_window [OF assms] list_all_iff)

lemma recentMetrics_length:
  assumes "pointsNeeded (alertDuration s) \<le> int (length (metrics device))"
  shows "int (length (recentMetrics s device)) = pointsNeeded (alertDuration s)"
  using assms pointsNeeded_ge_1 [of "alertDuration s"]
  by (simp add: recentMetrics_window [OF assms])

text \<open>
  Claim C5. The window size is \<open>\<lceil>alertDuration / 3\<rceil>\<close> and at least 1, that is, the least
  whole number \<open>n \<ge> 1\<close> of 3-second samples with \<open>alertDuration \<le> 3 n\<close>. A device
  with fewer samples than that pushes no alert, whatever its values: it can be removed
  from the device list without changing the evaluator's result. For a device with
  enough samples the window the evaluator examines has exactly that many samples, the
  most recent ones, and the two threshold tests range over exactly these.
\<close>

theorem window_size:
  "pointsNeeded duration = max 1 \<lceil>duration / 3\<rceil> \<and>
   1 \<le> pointsNeeded duration \<and>
   (\<forall>n. pointsNeeded duration \<le> n \<longleftrightarrow> 1 \<le> n \<and> duration \<le> 3 * real_of_int n) \<and>
   (int (length (metrics device)) < pointsNeeded (alertDuration s) \<longrightarrow>
      fst (checkDevice ns s device w) = [] \<and>
      evaluate ns s (before @ device # after) w = evaluate ns s (before @ after) w) \<and>
   (pointsNeeded (alertDuration s) \<le> int (length (metrics device)) \<longrightarrow>
      int (length (recentMetrics s device)) = pointsNeeded (alertDuration s) \<and>
      recentMetrics s device =
        drop (length (metrics device) - nat (pointsNeeded (alertDuration s))) (metrics device) \<and>
      (cpuExceeded s device \<longleftrightarrow>
         (\<forall>m \<in> set (drop (length (metrics device) - nat (pointsNeeded (alertDuration s)))
                       (metrics device)). cpu m > cpuThreshold s)) \<and>
      (ramExceeded s device \<longleftrightarrow>
         (\<forall>m \<in> set (drop (length (metrics device) - nat (pointsNeeded (alertDuration s)))
                       (metrics device)). ram m > ramThreshold s)))"
proof -
  have 1: "evaluate ns s (before @ device # after) w = evaluate ns s (before @ after) w"
    if "int (length (metrics device)) < pointsNeeded (alertDuration s)"
    using checkDevice_short [OF that] by (simp add: evaluate_append split_beta)
  have 2: "pointsNeeded duration = max 1 \<lceil>duration / 3\<rceil>"
    by (simp add: pointsNeeded_def)
  have 3: "\<forall>n. pointsNeeded duration \<le> n \<longleftrightarrow> 1 \<le> n \<and> duration \<le> 3 * real_of_int n"
    using pointsNeeded_le_iff [of duration] by blast
  have 4: "int (length (metrics device)) < pointsNeeded (alertDuration s) \<longrightarrow>
      fst (checkDevice ns s device w) = [] \<and>
      evaluate ns s (before @ device # after) w = evaluate ns s (before @ after) w"
    using 1 by (simp add: checkDevice_short)
  have 5: "pointsNeeded (alertDuration s) \<le> int (length (metrics device)) \<longrightarrow>
      int (length (recentMetrics s device)) = pointsNeeded (alertDuration s) \<and>
      recentMetrics s device =
        drop (length (metrics device) - nat (pointsNeeded (alertDuration s))) (metrics device) \<and>
      (cpuExceeded s device \<longleftrightarrow>
         (\<forall>m \<in> set (drop (length (metrics device) - nat (pointsNeeded (alertDuration s)))
                       (metrics device)). cpu m > cpuThreshold s)) \<and>
      (ramExceeded s device \<longleftrightarrow>
         (\<forall>m \<in> set (drop (length (metrics device) - nat (pointsNeeded (alertDuration s)))
                       (metrics device)). ram m > ramThreshold s))"
    using recentMetrics_length recentMetrics_window cpuExceeded_window ramExceeded_window
    by blast
  from 2 3 4 5 pointsNeeded_ge_1 [of duration] show ?thesis by blast
qed

theorem window_size_witness:
  "pointsNeeded 60 = 20 \<and>
   int (length (metrics (device0 [sample 95 95]))) < pointsNeeded 60 \<and>
   fst (checkDevice intStr initialState (device0 [sample 95 95]) world0) = [] \<and>
   evaluate intStr initialState ([] @ device0 [sample 95 95] # []) world0 =
     evaluate intStr initialState ([] @ []) world0 \<and>
   pointsNeeded (alertDuration state6) = 2 \<and>
   pointsNeeded (alertDuration state6) \<le> int (length (metrics device3)) \<and>
   length (metrics device3) = 3 \<and>
   int (length (recentMetrics state6 device3)) = 2 \<and>
   recentMetrics state6 device3 = [sample 95 40, sample 97 45] \<and>
   cpuExceeded state6 device3"
proof -
  have a: "alertDuration initialState = 60" by (simp add: initialState_def)
  have p: "pointsNeeded 60 = 20" by (simp add: pointsNeeded_def)
  have l: "int (length (metrics (device0 [sample 95 95]))) < pointsNeeded 60"
    by (simp add: p device0_def)
  note T1 = window_size [where duration = 60 and s = initialState and ns = intStr and w = world0
        and device = "device0 [sample 95 95]" and before = "[]" and after = "[]"]
  have 1: "fst (checkDevice intStr initialState (device0 [sample 95 95]) world0) = [] \<and>
     evaluate intStr initialState ([] @ device0 [sample 95 95] # []) world0 =
       evaluate intStr initialState ([] @ []) world0"
    using T1 l by (simp add: a)
  have q: "pointsNeeded (alertDuration state6) = 2"
    by (simp add: state6_def initialState_def pointsNeeded_def)
  have m: "metrics device3 = [sample 91 40, sample 95 40, sample 97 45]"
    by (simp add: device3_def device0_def)
  have g: "pointsNeeded (alertDuration state6) \<le> int (length (metrics device3))"
    by (simp add: q m)
  note T2 = window_size [where s = state6 and device = device3]
  from T2 g have r: "int (length (recentMetrics state6 device3)) = pointsNeeded (alertDuration state6)"
    "recentMetrics state6 device3 =
        drop (length (metrics device3) - nat (pointsNeeded (alertDuration state6))) (metrics device3)"
    "cpuExceeded state6 device3 \<longleftrightarrow>
         (\<forall>m \<in> set (drop (length (metrics device3) - nat (pointsNeeded (alertDuration state6)))
                       (metrics device3)). cpu m > cpuThreshold state6)"
    by blast+
  have w: "drop (length (metrics device3) - nat (pointsNeeded (alertDuration state6))) (metrics device3)
             = [sample 95 40, sample 97 45]"
    by (simp add: q m)
  have c: "cpuExceeded state6 device3"
    unfolding r(3) w by (simp add: sample_def state6_def initialState_def)
  from p l 1 q g m r(1,2) w c show ?thesis by simp
qed

lemma checkDevice_alert:
  assumes "a \<in> set (fst (checkDevice ns s device w))"
  shows "deviceId a = dev_id device \<and> deviceName a = name device \<and>
         alert_id a = alertId ns (dev_id device) (metricType a)
                        (case metricType a of CPU \<Rightarrow> cpuThreshold s | RAM \<Rightarrow> ramThreshold s)
                        (alertDuration s) \<and>
         alert_id a \<notin> dismissedAlertIds s \<and>
         alert_value a = (case metricType a of CPU \<Rightarrow> cpu (last (metrics device))
                                             | RAM \<Rightarrow> ram (last (metrics device)))"
  using assms
  by (auto simp: checkDevice_def split_beta Let_def split: if_splits)

lemma checkDevice_cpu_iff:
  assumes "pointsNeeded (alertDuration s) \<le> int (length (metrics device))"
  shows "(\<exists>a \<in> set (fst (checkDevice ns s device w)). metricType a = CPU) \<longleftrightarrow>
         cpuExceeded s device \<and>
         alertId ns (dev_id device) CPU (cpuThreshold s) (alertDuration s) \<notin> dismissedAlertIds s"
  using assms by (auto simp: checkDevice_def split_beta Let_def split: if_splits)

lemma checkDevice_ram_iff:
  assumes "pointsNeeded (alertDuration s) \<le> int (length (metrics device))"
  shows "(\<exists>a \<in> set (fst (checkDevice ns s device w)). metricType a = RAM) \<longleftrightarrow>
         ramExceeded s device \<and>
         alertId ns (dev_id device) RAM (ramThreshold s) (alertDuration s) \<notin> dismissedAlertIds s"
  using assms by (auto simp: checkDevice_def split_beta Let_def split: if_splits)

lemma evaluate_mem:
  "a \<in> set (fst (evaluate ns s ds w)) \<longleftrightarrow>
     (\<exists>pre d post. ds = pre @ d # post \<and>
        a \<in> set (fst (checkDevice ns s d (snd (evaluate ns s pre w)))))"
proof (induction ds arbitrary: w)
  case Nil
  show ?case by simp
next
  case (Cons x xs)
  show ?case
  proof
    assume "a \<in> set (fst (evaluate ns s (x # xs) w))"
    then consider "a \<in> set (fst (checkDevice ns s x w))"
      | "a \<in> set (fst (evaluate ns s xs (snd (checkDevice ns s x w))))"
      by (auto simp: split_beta)
    then show "\<exists>pre d post. x # xs = pre @ d # post \<and>
        a \<in> set (fst (checkDevice ns s d (snd (evaluate ns s pre w))))"
    proof cases
      case 1
      then have "x # xs = [] @ x # xs \<and> a \<in> set (fst (checkDevice ns s x (snd (evaluate ns s [] w))))"
        by simp
      then show ?thesis by blast
    next
      case 2
      then obtain pre d post where p: "xs = pre @ d # post"
        "a \<in> set (fst (checkDevice ns s d (snd (evaluate ns s pre (snd (checkDevice ns s x w))))))"
        using Cons.IH by blast
      then have "x # xs = (x # pre) @ d # post \<and>
          a \<in> set (fst (checkDevice ns s d (snd (evaluate ns s (x # pre) w))))"
        by (simp add: split_beta)
      then show ?thesis by blast
    qed
  next
    assume "\<exists>pre d post. x # xs = pre @ d # post \<and>
        a \<in> set (fst (checkDevice ns s d (snd (evaluate ns s pre w))))"
    then obtain pre d post where p: "x # xs = pre @ d # post"
        "a \<in> set (fst (checkDevice ns s d (snd (evaluate ns s pre w))))"
      by blast
    show "a \<in> set (fst (evaluate ns s (x # xs) w))"
    proof (cases pre)
      case Nil
      then show ?thesis using p by (simp add: split_beta)
    next
      case (Cons y pre')
      then have "xs = pre' @ d # post" "y = x" using p(1) by simp_all
      moreover have "a \<in> set (fst (checkDevice ns s d (snd (evaluate ns s pre' (snd (checkDevice ns s x w))))))"
        using p(2) Cons \<open>y = x\<close> by (simp add: split_beta)
      ultimately have "a \<in> set (fst (evaluate ns s xs (snd (checkDevice ns s x w))))"
        using Cons.IH by blast
      then show ?thesis by (simp add: split_beta)
    qed
  qed
qed

lemma evaluate_alert:
  assumes "a \<in> set (fst (evaluate ns s ds w))"
  shows "\<exists>d \<in> set ds. \<exists>w'. a \<in> set (fst (checkDevice ns s d w'))"
proof -
  obtain pre d post where "ds = pre @ d # post"
     "a \<in> set (fst (checkDevice ns s d (snd (evaluate ns s pre w))))"
    using assms evaluate_mem by blast
  then show ?thesis by auto
qed

lemma evaluate_contains:
  assumes "d \<in> set ds"
  shows "\<exists>w'. set (fst (checkDevice ns s d w')) \<subseteq> set (fst (evaluate ns s ds w))"
proof -
  obtain pre post where ds: "ds = pre @ d # post"
    using assms by (meson split_list)
  have "set (fst (checkDevice ns s d (snd (evaluate ns s pre w)))) \<subseteq> set (fst (evaluate ns s ds w))"
    using evaluate_mem ds by blast
  then show ?thesis by blast
qed


lemma evaluate_emits_iff:
  assumes d: "device \<in> set ds" and dist: "distinct (map dev_id ds)"
    and iff: "\<And>w'. (\<exists>a \<in> set (fst (checkDevice ns s device w')). metricType a = m) \<longleftrightarrow> Q"
  shows "(\<exists>a \<in> set (fst (evaluate ns s ds w)). deviceId a = dev_id device \<and> metricType a = m) \<longleftrightarrow> Q"
proof
  assume "\<exists>a \<in> set (fst (evaluate ns s ds w)). deviceId a = dev_id device \<and> metricType a = m"
  then obtain a where a: "a \<in> set (fst (evaluate ns s ds w))" "deviceId a = dev_id device"
      "metricType a = m" by blast
  obtain d' w' where d': "d' \<in> set ds" "a \<in> set (fst (checkDevice ns s d' w'))"
    using evaluate_alert [OF a(1)] by blast
  have "dev_id d' = dev_id device" using checkDevice_alert [OF d'(2)] a(2) by simp
  then have "d' = device"
    using dist d d'(1) by (meson distinct_map inj_onD)
  then show Q using iff [of w'] d'(2) a(3) by blast
next
  assume Q
  obtain w' where w': "set (fst (checkDevice ns s device w')) \<subseteq> set (fst (evaluate ns s ds w))"
    using evaluate_contains [OF d] by blast
  obtain a where a: "a \<in> set (fst (checkDevice ns s device w'))" "metricType a = m"
    using iff [of w'] \<open>Q\<close> by blast
  have "deviceId a = dev_id device" using checkDevice_alert [OF a(1)] by simp
  then show "\<exists>a \<in> set (fst (evaluate ns s ds w)). deviceId a = dev_id device \<and> metricType a = m"
    using a w' by blast
qed

lemma evaluate_value:
  assumes d: "device \<in> set ds" and dist: "distinct (map dev_id ds)"
    and a: "a \<in> set (fst (evaluate ns s ds w))" "deviceId a = dev_id device"
  shows "alert_value a = (case metricType a of CPU \<Rightarrow> cpu (last (metrics device))
                                            | RAM \<Rightarrow> ram (last (metrics device)))"
proof -
  obtain d' w' where d': "d' \<in> set ds" "a \<in> set (fst (checkDevice ns s d' w'))"
    using evaluate_alert [OF a(1)] by blast
  have "dev_id d' = dev_id device" using checkDevice_alert [OF d'(2)] a(2) by simp
  then have "d' = device"
    using dist d d'(1) by (meson distinct_map inj_onD)
  with d'(2) have "a \<in> set (fst (checkDevice ns s device w'))" by simp
  then show ?thesis using checkDevice_alert by blast
qed

text \<open>
  Claim C1, amended. Take a device whose history has at least \<open>pointsNeeded\<close> samples. The
  evaluator pushes a CPU alert while visiting that device if and only if every sample of
  the trailing window (the last \<open>pointsNeeded\<close> samples) has cpu strictly above
  \<open>cpuThreshold\<close> and the alert's id is not among the dismissed ids; likewise for RAM
  with \<open>ramThreshold\<close>. Every alert pushed for the device carries the value of its metric
  in the most recent sample. In a device list with distinct ids the same holds of the
  alerts in the evaluator's whole output that name the device.
\<close>

theorem evaluate_sustained:
  assumes "pointsNeeded (alertDuration s) \<le> int (length (metrics device))"
  shows
    "((\<exists>a \<in> set (fst (checkDevice ns s device w)). metricType a = CPU) \<longleftrightarrow>
        (\<forall>m \<in> set (drop (length (metrics device) - nat (pointsNeeded (alertDuration s)))
                      (metrics device)). cpu m > cpuThreshold s) \<and>
        alertId ns (dev_id device) CPU (cpuThreshold s) (alertDuration s) \<notin> dismissedAlertIds s) \<and>
     ((\<exists>a \<in> set (fst (checkDevice ns s device w)). metricType a = RAM) \<longleftrightarrow>
        (\<forall>m \<in> set (drop (length (metrics device) - nat (pointsNeeded (alertDuration s)))
                      (metrics device)). ram m > ramThreshold s) \<and>
        alertId ns (dev_id device) RAM (ramThreshold s) (alertDuration s) \<notin> dismissedAlertIds s) \<and>
     (\<forall>a \<in> set (fst (checkDevice ns s device w)).
        deviceId a = dev_id device \<and>
        alert_value a = (case metricType a of CPU \<Rightarrow> cpu (last (metrics device))
                                            | RAM \<Rightarrow> ram (last (metrics device)))) \<and>
     (device \<in> set ds \<and> distinct (map dev_id ds) \<longrightarrow>
        ((\<exists>a \<in> set (fst (evaluate ns s ds w)). deviceId a = dev_id device \<and> metricType a = CPU) \<longleftrightarrow>
           (\<forall>m \<in> set (drop (length (metrics device) - nat (pointsNeeded (alertDuration s)))
                         (metrics device)). cpu m > cpuThreshold s) \<and>
           alertId ns (dev_id device) CPU (cpuThreshold s) (alertDuration s) \<notin> dismissedAlertIds s) \<and>
        ((\<exists>a \<in> set (fst (evaluate ns s ds w)). deviceId a = dev_id device \<and> metricType a = RAM) \<longleftrightarrow>
           (\<forall>m \<in> set (drop (length (metrics device) - nat (pointsNeeded (alertDuration s)))
                         (metrics device)). ram m > ramThreshold s) \<and>
           alertId ns (dev_id device) RAM (ramThreshold s) (alertDuration s) \<notin> dismissedAlertIds s) \<and>
        (\<forall>a \<in> set (fst (evaluate ns s ds w)). deviceId a = dev_id device \<longrightarrow>
           alert_value a = (case metricType a of CPU \<Rightarrow> cpu (last (metrics device))
                                               | RAM \<Rightarrow> ram (last (metrics device)))))"
proof -
  note c = checkDevice_cpu_iff [OF assms, of ns, unfolded cpuExceeded_window [OF assms]]
  note r = checkDevice_ram_iff [OF assms, of ns, unfolded ramExceeded_window [OF assms]]
  have 1: "(\<exists>a \<in> set (fst (checkDevice ns s device w)). metricType a = CPU) \<longleftrightarrow>
        (\<forall>m \<in> set (drop (length (metrics device) - nat (pointsNeeded (alertDuration s)))
                      (metrics device)). cpu m > cpuThreshold s) \<and>
        alertId ns (dev_id device) CPU (cpuThreshold s) (alertDuration s) \<notin> dismissedAlertIds s"
    by (rule c)
  have 2: "(\<exists>a \<in> set (fst (checkDevice ns s device w)). metricType a = RAM) \<longleftrightarrow>
        (\<forall>m \<in> set (drop (length (metrics device) - nat (pointsNeeded (alertDuration s)))
                      (metrics device)). ram m > ramThreshold s) \<and>
        alertId ns (dev_id device) RAM (ramThreshold s) (alertDuration s) \<notin> dismissedAlertIds s"
    by (rule r)
  have 3: "\<forall>a \<in> set (fst (checkDevice ns s device w)).
        deviceId a = dev_id device \<and>
        alert_value a = (case metricType a of CPU \<Rightarrow> cpu (last (metrics device))
                                            | RAM \<Rightarrow> ram (last (metrics device)))"
    using checkDevice_alert by blast
  have 4: "(\<exists>a \<in> set (fst (evaluate ns s ds w)). deviceId a = dev_id device \<and> metricType a = CPU) \<longleftrightarrow>
           (\<forall>m \<in> set (drop (length (metrics device) - nat (pointsNeeded (alertDuration s)))
                         (metrics device)). cpu m > cpuThreshold s) \<and>
           alertId ns (dev_id device) CPU (cpuThreshold s) (alertDuration s) \<notin> dismissedAlertIds s"
    if "device \<in> set ds" "distinct (map dev_id ds)"
    using that by (rule evaluate_emits_iff) (rule c)
  have 5: "(\<exists>a \<in> set (fst (evaluate ns s ds w)). deviceId a = dev_id device \<and> metricType a = RAM) \<longleftrightarrow>
           (\<forall>m \<in> set (drop (length (metrics device) - nat (pointsNeeded (alertDuration s)))
                         (metrics device)). ram m > ramThreshold s) \<and>
           alertId ns (dev_id device) RAM (ramThreshold s) (alertDuration s) \<notin> dismissedAlertIds s"
    if "device \<in> set ds" "distinct (map dev_id ds)"
    using that by (rule evaluate_emits_iff) (rule r)
  have 6: "\<forall>a \<in> set (fst (evaluate ns s ds w)). deviceId a = dev_id device \<longrightarrow>
           alert_value a = (case metricType a of CPU \<Rightarrow> cpu (last (metrics device))
                                               | RAM \<Rightarrow> ram (last (metrics device)))"
    if "device \<in> set ds" "distinct (map dev_id ds)"
    using that evaluate_value by blast
  from 1 2 3 4 5 6 show ?thesis by blast
qed

lemmas example_defs =
  state6_def device1_def initialState_def device0_def sample_def world0_def

lemmas eval_defs =
  checkDevice_def pointsNeeded_def cpuExceeded_def ramExceeded_def recentMetrics_def
  slice_from_def alertId_def metricName_def intStr_def natStr.simps Date_now_def

theorem evaluate_sustained_witness:
  "pointsNeeded (alertDuration state6) \<le> int (length (metrics device1)) \<and>
   device1 \<in> set [device1] \<and> distinct (map dev_id [device1]) \<and>
   (\<exists>a \<in> set (fst (evaluate intStr state6 [device1] world0)).
      deviceId a = dev_id device1 \<and> metricType a = CPU) \<and>
   \<not> (\<exists>a \<in> set (fst (evaluate intStr state6 [device1] world0)).
      deviceId a = dev_id device1 \<and> metricType a = RAM) \<and>
   alert_value (hd (fst (evaluate intStr state6 [device1] world0))) = cpu (last (metrics device1)) \<and>
   cpu (last (metrics device1)) = 97 \<and>
   fst (evaluate intStr state6 [device1] world0) =
     [\<lparr>alert_id = ''dev-0-CPU-90-6'', deviceId = ''dev-0'', deviceName = ''US-WEST-SRV-01'',
       metricType = CPU, alert_value = 97, alert_timestamp = 1000\<rparr>]"
proof -
  have h: "pointsNeeded (alertDuration state6) \<le> int (length (metrics device1))"
    by (simp add: example_defs pointsNeeded_def)
  have pn: "nat (pointsNeeded (alertDuration state6)) = 2"
    by (simp add: example_defs pointsNeeded_def)
  have m: "metrics device1 = [sample 95 40, sample 97 45]"
    by (simp add: device1_def device0_def)
  have c: "(\<forall>m \<in> set (drop (length (metrics device1) - nat (pointsNeeded (alertDuration state6)))
              (metrics device1)). cpu m > cpuThreshold state6) \<and>
        alertId intStr (dev_id device1) CPU (cpuThreshold state6) (alertDuration state6)
          \<notin> dismissedAlertIds state6"
    unfolding pn m by (simp add: example_defs)
  have r: "\<not> (\<forall>m \<in> set (drop (length (metrics device1) - nat (pointsNeeded (alertDuration state6)))
              (metrics device1)). ram m > ramThreshold state6)"
    unfolding pn m by (simp add: example_defs)
  have e: "fst (evaluate intStr state6 [device1] world0) =
     [\<lparr>alert_id = ''dev-0-CPU-90-6'', deviceId = ''dev-0'', deviceName = ''US-WEST-SRV-01'',
       metricType = CPU, alert_value = 97, alert_timestamp = 1000\<rparr>]"
    by (simp add: example_defs eval_defs)
  have l: "cpu (last (metrics device1)) = 97"
    by (simp add: m sample_def)
  have d: "device1 \<in> set [device1]" "distinct (map dev_id [device1])" by simp_all
  note T = evaluate_sustained [OF h, where ns = intStr and w = world0 and ds = "[device1]"]
  from T c d have 1: "\<exists>a \<in> set (fst (evaluate intStr state6 [device1] world0)).
      deviceId a = dev_id device1 \<and> metricType a = CPU" by blast
  from T r d have 2: "\<not> (\<exists>a \<in> set (fst (evaluate intStr state6 [device1] world0)).
      deviceId a = dev_id device1 \<and> metricType a = RAM)" by blast
  from T d have 3: "\<forall>a \<in> set (fst (evaluate intStr state6 [device1] world0)).
      deviceId a = dev_id device1 \<longrightarrow>
      alert_value a = (case metricType a of CPU \<Rightarrow> cpu (last (metrics device1))
                                          | RAM \<Rightarrow> ram (last (metrics device1)))" by blast
  have "hd (fst (evaluate intStr state6 [device1] world0)) \<in>
          set (fst (evaluate intStr state6 [device1] world0))"
       "deviceId (hd (fst (evaluate intStr state6 [device1] world0))) = dev_id device1"
       "metricType (hd (fst (evaluate intStr state6 [device1] world0))) = CPU"
    unfolding e by (simp_all add: device1_def device0_def)
  with 3 have 4: "alert_value (hd (fst (evaluate intStr state6 [device1] world0))) =
      cpu (last (metrics device1))"
    by (metis MetricType.simps(3))
  from h d 1 2 4 l e show ?thesis by blast
qed

text \<open>
  Without the condition on the dismissed ids the equivalence fails: with the id dismissed,
  both samples of the window (cpu 95 and 97) are above the threshold 90 and nothing is
  pushed.
\<close>

theorem evaluate_sustained_counterexample:
  "pointsNeeded (alertDuration state6_dismissed) \<le> int (length (metrics device1)) \<and>
   recentMetrics state6_dismissed device1 = [sample 95 40, sample 97 45] \<and>
   cpuThreshold state6_dismissed = 90 \<and>
   cpuExceeded state6_dismissed device1 \<and>
   fst (evaluate intStr state6_dismissed [device1] world0) = []"
  by (simp add: state6_dismissed_def example_defs eval_defs)

section \<open>Properties of the alert lifecycle\<close>

lemma mergeAlerts_eq:
  "mergeAlerts prev newAlerts =
     prev @ filter (\<lambda>a. alert_id a \<notin> alert_id ` set prev) newAlerts"
  by (simp add: mergeAlerts_def Let_def)

lemma alertEffect_active:
  "activeAlerts (fst (alertEffect ns s w)) =
     (if devices s = [] then activeAlerts s
      else mergeAlerts (activeAlerts s) (fst (evaluate ns s (devices s) w)))"
  by (simp add: alertEffect_def split_beta)

lemma alertEffect_rest:
  "devices (fst (alertEffect ns s w)) = devices s \<and>
   dismissedAlertIds (fst (alertEffect ns s w)) = dismissedAlertIds s \<and>
   cpuThreshold (fst (alertEffect ns s w)) = cpuThreshold s \<and>
   ramThreshold (fst (alertEffect ns s w)) = ramThreshold s \<and>
   alertDuration (fst (alertEffect ns s w)) = alertDuration s"
  by (simp add: alertEffect_def split_beta)

lemma alertEffect_prefix:
  "take (length (activeAlerts s)) (activeAlerts (fst (alertEffect ns s w))) = activeAlerts s"
  by (simp add: alertEffect_active mergeAlerts_eq)

lemma step_prefix:
  assumes "\<forall>k. e \<noteq> DismissAlert k"
  shows "take (length (activeAlerts s)) (activeAlerts (fst (step ns e (s, w)))) = activeAlerts s"
proof (cases e)
  case Tick
  have "take (length (activeAlerts (s\<lparr>devices := ds\<rparr>)))
          (activeAlerts (fst (alertEffect ns (s\<lparr>devices := ds\<rparr>) w'))) =
        activeAlerts (s\<lparr>devices := ds\<rparr>)" for ds w'
    by (rule alertEffect_prefix)
  then show ?thesis using Tick by (simp add: split_beta)
next
  case (DismissAlert k)
  then show ?thesis using assms by simp
next
  case (SetCpuThreshold v)
  have "take (length (activeAlerts (s\<lparr>cpuThreshold := v\<rparr>)))
          (activeAlerts (fst (alertEffect ns (s\<lparr>cpuThreshold := v\<rparr>) w))) =
        activeAlerts (s\<lparr>cpuThreshold := v\<rparr>)"
    by (rule alertEffect_prefix)
  then show ?thesis using SetCpuThreshold by simp
next
  case (SetRamThreshold v)
  have "take (length (activeAlerts (s\<lparr>ramThreshold := v\<rparr>)))
          (activeAlerts (fst (alertEffect ns (s\<lparr>ramThreshold := v\<rparr>) w))) =
        activeAlerts (s\<lparr>ramThreshold := v\<rparr>)"
    by (rule alertEffect_prefix)
  then show ?thesis using SetRamThreshold by simp
next
  case (SetAlertDuration v)
  have "take (length (activeAlerts (s\<lparr>alertDuration := v\<rparr>)))
          (activeAlerts (fst (alertEffect ns (s\<lparr>alertDuration := v\<rparr>) w))) =
        activeAlerts (s\<lparr>alertDuration := v\<rparr>)"
    by (rule alertEffect_prefix)
  then show ?thesis using SetAlertDuration by simp
qed

text \<open>
  Claim C4. The merge keeps the active alerts as they are, in place and unchanged (id,
  value and timestamp included), whatever the evaluator found this time, and appends
  exactly those new alerts whose id no active alert has. The same holds of the alert
  effect as a whole and of every event other than a dismissal: the active alerts
  before the event are an unchanged initial part of the active alerts after it.
\<close>

theorem mergeAlerts_frame:
  "mergeAlerts prev newAlerts =
     prev @ filter (\<lambda>a. alert_id a \<notin> alert_id ` set prev) newAlerts \<and>
   take (length prev) (mergeAlerts prev newAlerts) = prev \<and>
   (\<forall>i < length prev. mergeAlerts prev newAlerts ! i = prev ! i) \<and>
   take (length (activeAlerts s)) (activeAlerts (fst (alertEffect ns s w))) = activeAlerts s \<and>
   ((\<forall>k. e \<noteq> DismissAlert k) \<longrightarrow>
      take (length (activeAlerts s)) (activeAlerts (fst (step ns e (s, w)))) = activeAlerts s)"
  using step_prefix [of e s ns w]
  by (simp add: mergeAlerts_eq alertEffect_prefix nth_append)

theorem mergeAlerts_frame_witness:
  "(\<forall>k. Tick \<noteq> DismissAlert k) \<and>
   mergeAlerts [alert1] [alert1_again, alert2] = [alert1, alert2] \<and>
   mergeAlerts [alert1] [alert1_again, alert2] ! 0 = alert1 \<and>
   activeAlerts state6_active = [alert1] \<and>
   take (length (activeAlerts state6_active))
     (activeAlerts (fst (step intStr Tick (state6_active, world0)))) = activeAlerts state6_active"
  using mergeAlerts_frame [where prev = "[alert1]" and newAlerts = "[alert1_again, alert2]"
      and e = Tick and s = state6_active and ns = intStr and w = world0]
  by (simp add: alert1_def alert1_again_def alert2_def state6_active_def)

lemma evaluate_not_dismissed:
  assumes "a \<in> set (fst (evaluate ns s ds w))"
  shows "alert_id a \<notin> dismissedAlertIds s"
proof -
  obtain d w' where "a \<in> set (fst (checkDevice ns s d w'))"
    using evaluate_alert [OF assms] by blast
  then show ?thesis using checkDevice_alert by blast
qed

lemma alertEffect_dismissed:
  assumes "K \<in> dismissedAlertIds s" and "K \<notin> alert_id ` set (activeAlerts s)"
  shows "K \<in> dismissedAlertIds (fst (alertEffect ns s w)) \<and>
         K \<notin> alert_id ` set (activeAlerts (fst (alertEffect ns s w)))"
proof -
  have "K \<notin> alert_id ` set (fst (evaluate ns s (devices s) w))"
    using evaluate_not_dismissed assms(1) by blast
  then have "K \<notin> alert_id ` set (mergeAlerts (activeAlerts s) (fst (evaluate ns s (devices s) w)))"
    using assms(2) by (auto simp: mergeAlerts_eq)
  then show ?thesis
    using assms by (simp add: alertEffect_active alertEffect_rest)
qed

lemma handleDismissAlert_dismissed:
  "K \<in> dismissedAlertIds (handleDismissAlert K s) \<and>
   K \<notin> alert_id ` set (activeAlerts (handleDismissAlert K s))"
  by (auto simp: handleDismissAlert_def)

lemma step_dismissed:
  assumes "K \<in> dismissedAlertIds s" and "K \<notin> alert_id ` set (activeAlerts s)"
  shows "K \<in> dismissedAlertIds (fst (step ns e (s, w))) \<and>
         K \<notin> alert_id ` set (activeAlerts (fst (step ns e (s, w))))"
proof (cases e)
  case Tick
  have "K \<in> dismissedAlertIds (s\<lparr>devices := ds\<rparr>)"
       "K \<notin> alert_id ` set (activeAlerts (s\<lparr>devices := ds\<rparr>))" for ds
    using assms by simp_all
  then show ?thesis using Tick alertEffect_dismissed by (simp add: split_beta)
next
  case (DismissAlert k)
  have "K \<in> dismissedAlertIds (handleDismissAlert k s)"
       "K \<notin> alert_id ` set (activeAlerts (handleDismissAlert k s))"
    using assms by (auto simp: handleDismissAlert_def)
  then show ?thesis using DismissAlert alertEffect_dismissed by simp
next
  case (SetCpuThreshold v)
  have "K \<in> dismissedAlertIds (s\<lparr>cpuThreshold := v\<rparr>)"
       "K \<notin> alert_id ` set (activeAlerts (s\<lparr>cpuThreshold := v\<rparr>))"
    using assms by simp_all
  then show ?thesis using SetCpuThreshold alertEffect_dismissed assms by simp
next
  case (SetRamThreshold v)
  have "K \<in> dismissedAlertIds (s\<lparr>ramThreshold := v\<rparr>)"
       "K \<notin> alert_id ` set (activeAlerts (s\<lparr>ramThreshold := v\<rparr>))"
    using assms by simp_all
  then show ?thesis using SetRamThreshold alertEffect_dismissed assms by simp
next
  case (SetAlertDuration v)
  have "K \<in> dismissedAlertIds (s\<lparr>alertDuration := v\<rparr>)"
       "K \<notin> alert_id ` set (activeAlerts (s\<lparr>alertDuration := v\<rparr>))"
    using assms by simp_all
  then show ?thesis using SetAlertDuration alertEffect_dismissed assms by simp
qed

lemma run_dismissed:
  assumes "K \<in> dismissedAlertIds (fst sw)" and "K \<notin> alert_id ` set (activeAlerts (fst sw))"
  shows "K \<in> dismissedAlertIds (fst (run ns es sw)) \<and>
         K \<notin> alert_id ` set (activeAlerts (fst (run ns es sw)))"
  using assms
proof (induction es arbitrary: sw)
  case Nil
  then show ?case by simp
next
  case (Cons e es)
  obtain s w where sw: "sw = (s, w)" by (cases sw)
  have "K \<in> dismissedAlertIds (fst (step ns e sw)) \<and>
        K \<notin> alert_id ` set (activeAlerts (fst (step ns e sw)))"
    using step_dismissed [of K s ns e w] Cons.prems by (simp add: sw)
  then show ?case using Cons.IH [of "step ns e sw"] by simp
qed

text \<open>
  Claim C3. \<^verbatim>\<open>handleDismissAlert\<close> removes from the active alerts exactly those with the
  dismissed id \<open>K\<close>, adds \<open>K\<close> to the dismissed ids and changes nothing else. After the
  dismissal, whatever events follow (timer ticks in any number, further dismissals,
  threshold edits), \<open>K\<close> stays dismissed, no active alert has id \<open>K\<close>, and no alert the
  evaluator produces has id \<open>K\<close>, whatever the device metrics are.
\<close>

theorem dismiss_durable:
  "activeAlerts (handleDismissAlert K s) = filter (\<lambda>a. alert_id a \<noteq> K) (activeAlerts s) \<and>
   dismissedAlertIds (handleDismissAlert K s) = insert K (dismissedAlertIds s) \<and>
   devices (handleDismissAlert K s) = devices s \<and>
   cpuThreshold (handleDismissAlert K s) = cpuThreshold s \<and>
   ramThreshold (handleDismissAlert K s) = ramThreshold s \<and>
   alertDuration (handleDismissAlert K s) = alertDuration s \<and>
   (case run ns es (step ns (DismissAlert K) (s, w)) of (s', w') \<Rightarrow>
      K \<in> dismissedAlertIds s' \<and>
      K \<notin> alert_id ` set (activeAlerts s') \<and>
      K \<notin> alert_id ` set (fst (evaluate ns s' (devices s') w')))"
proof -
  have "K \<in> dismissedAlertIds (fst (step ns (DismissAlert K) (s, w))) \<and>
        K \<notin> alert_id ` set (activeAlerts (fst (step ns (DismissAlert K) (s, w))))"
    using alertEffect_dismissed handleDismissAlert_dismissed by simp
  then have r: "K \<in> dismissedAlertIds (fst (run ns es (step ns (DismissAlert K) (s, w)))) \<and>
        K \<notin> alert_id ` set (activeAlerts (fst (run ns es (step ns (DismissAlert K) (s, w)))))"
    using run_dismissed by blast
  then have "K \<notin> alert_id ` set (fst (evaluate ns s' ds w'))"
    if "s' = fst (run ns es (step ns (DismissAlert K) (s, w)))" for s' ds w'
    using that evaluate_not_dismissed by blast
  then show ?thesis
    using r by (simp add: split_beta handleDismissAlert_def)
qed

theorem dismiss_durable_witness:
  "run intStr [Tick, Tick] (step intStr (DismissAlert ''dev-0-CPU-90-6'') (state6_active, world0)) =
     (state6_after, world0\<lparr>rpos := 10, cpos := 4\<rparr>) \<and>
   list_all (cpuExceeded state6_after) (devices state6_after) \<and>
   ''dev-0-CPU-90-6'' \<in> dismissedAlertIds state6_after \<and>
   ''dev-0-CPU-90-6'' \<notin> alert_id ` set (activeAlerts state6_after) \<and>
   ''dev-0-CPU-90-6'' \<notin> alert_id ` set (fst (evaluate intStr state6_after (devices state6_after)
                                                 (world0\<lparr>rpos := 10, cpos := 4\<rparr>)))"
proof -
  have r: "run intStr [Tick, Tick]
             (step intStr (DismissAlert ''dev-0-CPU-90-6'') (state6_active, world0)) =
           (state6_after, world0\<lparr>rpos := 10, cpos := 4\<rparr>)"
    by (simp add: state6_active_def state6_after_def alert1_def example_defs eval_defs
          updateDevice_def Math_random_def frac_half rollStatus_def
          generateMetricPoint_def nextValue_def drift_def lastOpt_def Let_def
          alertEffect_def handleDismissAlert_def mergeAlerts_def)
  have c: "list_all (cpuExceeded state6_after) (devices state6_after)"
    by (simp add: state6_after_def device0_def eval_defs)
  note T = dismiss_durable [where K = "''dev-0-CPU-90-6''" and s = state6_active and w = world0
      and ns = intStr and es = "[Tick, Tick]"]
  from T [unfolded r] have "''dev-0-CPU-90-6'' \<in> dismissedAlertIds state6_after \<and>
   ''dev-0-CPU-90-6'' \<notin> alert_id ` set (activeAlerts state6_after) \<and>
   ''dev-0-CPU-90-6'' \<notin> alert_id ` set (fst (evaluate intStr state6_after (devices state6_after)
                                                 (world0\<lparr>rpos := 10, cpos := 4\<rparr>)))"
    by simp
  with r c show ?thesis by blast
qed

section \<open>The decimal formatter meets the formatting conditions on all integers\<close>

lemma digit_cases:
  assumes "k < (10::nat)"
  obtains "k = 0" | "k = 1" | "k = 2" | "k = 3" | "k = 4" | "k = 5" | "k = 6" | "k = 7" | "k = 8" | "k = 9"
proof -
  have "k = 0 \<or> k = 1 \<or> k = 2 \<or> k = 3 \<or> k = 4 \<or> k = 5 \<or> k = 6 \<or> k = 7 \<or> k = 8 \<or> k = 9"
    using assms by presburger
  then show thesis using that by blast
qed

lemma digit_value: "k < 10 \<Longrightarrow> of_char (''0123456789'' ! k) - 48 = k"
  by (erule digit_cases) simp_all

lemma digit_char: "k < 10 \<Longrightarrow> ''0123456789'' ! k \<in> set ''0123456789''"
  by (erule digit_cases) simp_all

lemma strVal_snoc: "strVal (cs @ [c]) = 10 * strVal cs + (of_char c - 48)"
  by (simp add: strVal_def)

lemma strVal_natStr: "strVal (natStr n) = n"
proof (induction n rule: natStr.induct)
  case (1 n)
  show ?case
  proof (cases "n < 10")
    case True
    then show ?thesis by (subst natStr.simps) (simp add: strVal_def digit_value)
  next
    case False
    then have "strVal (natStr n) = 10 * strVal (natStr (n div 10)) + (n mod 10)"
      by (subst natStr.simps) (simp add: strVal_snoc digit_value)
    then show ?thesis using 1 False by simp
  qed
qed

lemma natStr_inject: "natStr a = natStr b \<Longrightarrow> a = b"
  by (metis strVal_natStr)

lemma natStr_chars: "set (natStr n) \<subseteq> set ''0123456789''"
proof (induction n rule: natStr.induct)
  case (1 n)
  show ?case
  proof (cases "n < 10")
    case True
    then show ?thesis using digit_char [of n] by (subst natStr.simps) simp
  next
    case False
    then have "set (natStr n) = set (natStr (n div 10)) \<union> {''0123456789'' ! (n mod 10)}"
      by (subst natStr.simps) simp
    then show ?thesis using 1 False digit_char [of "n mod 10"] by simp
  qed
qed

lemma natStr_no_minus: "natStr n \<noteq> xs @ CHR ''-'' # ys"
proof
  assume "natStr n = xs @ CHR ''-'' # ys"
  then have "CHR ''-'' \<in> set (natStr n)" by simp
  then show False using natStr_chars [of n] by auto
qed

lemma natStr_nonempty: "natStr n \<noteq> []"
  by (subst natStr.simps) simp

lemma intStr_nonempty: "intStr x \<noteq> []"
  by (simp add: intStr_def natStr_nonempty)

lemma intStr_chars: "set (intStr x) \<subseteq> numChars"
proof -
  have "set ''0123456789'' \<subseteq> numChars" by (simp add: numChars_def)
  then have "set (natStr n) \<subseteq> numChars" for n
    using natStr_chars [of n] by (rule order_trans [rotated])
  moreover have "CHR ''-'' \<in> numChars" by (simp add: numChars_def)
  ultimately show ?thesis by (simp add: intStr_def)
qed

lemma intStr_no_minus: "intStr b \<noteq> intStr a @ CHR ''-'' # u"
proof
  assume e: "intStr b = intStr a @ CHR ''-'' # u"
  obtain c cs where a: "intStr a = c # cs"
    using intStr_nonempty [of a] by (cases "intStr a") simp_all
  show False
  proof (cases "b < 0")
    case True
    then have "natStr (nat \<lfloor>- b\<rfloor>) = cs @ CHR ''-'' # u"
      using e a by (simp add: intStr_def)
    then show False using natStr_no_minus by blast
  next
    case False
    then have "natStr (nat \<lfloor>b\<rfloor>) = intStr a @ CHR ''-'' # u"
      using e by (simp add: intStr_def)
    then show False using natStr_no_minus by blast
  qed
qed

lemma intStr_inject:
  assumes "x \<in> \<int>" "y \<in> \<int>" "intStr x = intStr y"
  shows "x = y"
proof -
  obtain j k where jk: "x = of_int j" "y = of_int k"
    using assms(1,2) by (meson Ints_cases)
  have neg: "natStr n \<noteq> CHR ''-'' # cs" for n cs
    using natStr_no_minus [of n "[]" cs] by simp
  consider "j < 0" "k < 0" | "j < 0" "0 \<le> k" | "0 \<le> j" "k < 0" | "0 \<le> j" "0 \<le> k"
    by linarith
  then have "j = k"
  proof cases
    case 1
    then have "natStr (nat (- j)) = natStr (nat (- k))"
      using assms(3) jk by (simp add: intStr_def)
    then have "nat (- j) = nat (- k)" by (rule natStr_inject)
    then show ?thesis using 1 by linarith
  next
    case 2
    then have "natStr (nat k) = CHR ''-'' # natStr (nat (- j))"
      using assms(3) jk by (simp add: intStr_def)
    then show ?thesis using neg [of "nat k" "natStr (nat (- j))"] by simp
  next
    case 3
    then have "natStr (nat j) = CHR ''-'' # natStr (nat (- k))"
      using assms(3) jk by (simp add: intStr_def)
    then show ?thesis using neg [of "nat j" "natStr (nat (- k))"] by simp
  next
    case 4
    then have "natStr (nat j) = natStr (nat k)"
      using assms(3) jk by (simp add: intStr_def)
    then have "nat j = nat k" by (rule natStr_inject)
    then show ?thesis using 4 by linarith
  qed
  then show ?thesis using jk by simp
qed

lemma intStr_numfmt_ok: "numfmt_ok \<int> intStr"
proof -
  have "inj_on intStr \<int>"
    by (rule inj_onI) (rule intStr_inject)
  then show ?thesis
    unfolding numfmt_ok_def using intStr_no_minus intStr_chars by blast
qed

section \<open>The decimal formatter meets the formatting conditions on all decimal numbers\<close>

lemma unit_int_zero:
  assumes "y \<in> \<int>" "0 \<le> y" "y < (1::real)"
  shows "y = 0"
proof -
  obtain k where k: "y = of_int k" using assms(1) by (meson Ints_cases)
  then have "0 \<le> k" "k < 1" using assms(2,3) by simp_all
  then show ?thesis using k by simp
qed

lemma digit_index:
  assumes "0 \<le> y" "y < (1::real)"
  shows "nat \<lfloor>10 * y\<rfloor> < 10" and "real (nat \<lfloor>10 * y\<rfloor>) = of_int \<lfloor>10 * y\<rfloor>"
    and "0 \<le> frac (10 * y)" and "frac (10 * y) < 1"
proof -
  have "10 * y < 10" using assms by simp
  then have "\<lfloor>10 * y\<rfloor> < 10" by (simp add: floor_less_iff)
  moreover have "0 \<le> \<lfloor>10 * y\<rfloor>" using assms by simp
  ultimately show "nat \<lfloor>10 * y\<rfloor> < 10" "real (nat \<lfloor>10 * y\<rfloor>) = of_int \<lfloor>10 * y\<rfloor>"
    by linarith+
  show "0 \<le> frac (10 * y)" "frac (10 * y) < 1" by (simp_all add: frac_lt_1)
qed

lemma fracVal_fracDigits:
  assumes "0 \<le> y" "y < 1" "y * 10 ^ n \<in> \<int>"
  shows "fracVal (fracDigits n y) = y"
  using assms
proof (induction n arbitrary: y)
  case 0
  then show ?case using unit_int_zero [of y] by simp
next
  case (Suc n)
  show ?case
  proof (cases "y = 0")
    case True
    then show ?thesis by simp
  next
    case False
    let ?d = "\<lfloor>10 * y\<rfloor>"
    let ?y' = "frac (10 * y)"
    note di = digit_index [OF Suc.prems(1,2)]
    have y': "?y' = 10 * y - of_int ?d" by (simp add: frac_def)
    have "?y' * 10 ^ n = y * 10 ^ Suc n - of_int (?d * 10 ^ n)"
      by (subst y') (simp add: algebra_simps)
    then have "?y' * 10 ^ n \<in> \<int>"
      using Suc.prems(3) by (simp only: Ints_diff Ints_of_int)
    then have ih: "fracVal (fracDigits n ?y') = ?y'"
      using Suc.IH [of ?y'] di(3,4) by blast
    have "fracVal (fracDigits (Suc n) y) = (real (nat ?d) + ?y') / 10"
      using False by (simp add: ih digit_value [OF di(1)])
    also have "\<dots> = y" by (simp add: di(2) y')
    finally show ?thesis .
  qed
qed

lemma fracDigits_chars:
  assumes "0 \<le> y" "y < 1"
  shows "set (fracDigits n y) \<subseteq> set ''0123456789''"
  using assms
proof (induction n arbitrary: y)
  case 0
  show ?case by simp
next
  case (Suc n)
  note di = digit_index [OF Suc.prems]
  have "set (fracDigits n (frac (10 * y))) \<subseteq> set ''0123456789''"
    using Suc.IH di(3,4) by blast
  then show ?case using digit_char [OF di(1)] by simp
qed

lemma natStr_no_point: "CHR ''.'' \<notin> set (natStr n)"
  using natStr_chars [of n] by auto

lemma natStr_minus_free: "CHR ''-'' \<notin> set (natStr k)"
  using natStr_chars [of k] by auto

lemma fracDigits_minus_free:
  assumes "0 \<le> y" "y < 1"
  shows "CHR ''-'' \<notin> set (fracDigits n y)"
  using fracDigits_chars [OF assms, of n] by auto

lemma digits_numChars: "set ''0123456789'' \<subseteq> numChars"
  by (simp add: numChars_def)

lemma decBody_nonempty: "decBody a \<noteq> []"
  unfolding decBody_def using natStr_nonempty [of "nat \<lfloor>a\<rfloor>"] by simp

lemma decBody_minus_free: "CHR ''-'' \<notin> set (decBody a)"
proof -
  have "CHR ''-'' \<notin> set (fracDigits 20 (frac a))"
    by (rule fracDigits_minus_free) (simp_all add: frac_lt_1)
  then show ?thesis
    unfolding decBody_def using natStr_minus_free [of "nat \<lfloor>a\<rfloor>"]
    by (cases "frac a = 0") simp_all
qed

lemma decBody_chars: "set (decBody a) \<subseteq> numChars"
proof -
  have n: "set (natStr (nat \<lfloor>a\<rfloor>)) \<subseteq> numChars"
    using natStr_chars [of "nat \<lfloor>a\<rfloor>"] digits_numChars by (rule order_trans)
  have "set (fracDigits 20 (frac a)) \<subseteq> set ''0123456789''"
    by (rule fracDigits_chars) (simp_all add: frac_lt_1)
  then have f: "set (fracDigits 20 (frac a)) \<subseteq> numChars"
    using digits_numChars by (rule order_trans)
  have p: "CHR ''.'' \<in> numChars" by (simp add: numChars_def)
  show ?thesis
    unfolding decBody_def using n f p by (cases "frac a = 0") simp_all
qed

lemma absVal_body:
  "absVal (natStr k @ (if P then [] else CHR ''.'' # fs)) =
     real k + (if P then 0 else fracVal fs)"
proof -
  have all: "\<forall>c \<in> set (natStr k). c \<noteq> CHR ''.''"
    using natStr_no_point [of k] by blast
  have t: "takeWhile (\<lambda>c. c \<noteq> CHR ''.'') (natStr k @ rest) =
           natStr k @ takeWhile (\<lambda>c. c \<noteq> CHR ''.'') rest" for rest
    using all by (simp add: takeWhile_append2)
  have d: "dropWhile (\<lambda>c. c \<noteq> CHR ''.'') (natStr k @ rest) =
           dropWhile (\<lambda>c. c \<noteq> CHR ''.'') rest" for rest
    using all by (simp add: dropWhile_append2)
  show ?thesis
    by (simp add: absVal_def t d strVal_natStr)
qed

lemma absVal_decBody:
  assumes "0 \<le> a" "a * 10 ^ 20 \<in> \<int>"
  shows "absVal (decBody a) = a"
proof -
  have "frac a * 10 ^ 20 = a * 10 ^ 20 - of_int (\<lfloor>a\<rfloor> * 10 ^ 20)"
    by (simp add: frac_def algebra_simps)
  then have "frac a * 10 ^ 20 \<in> \<int>"
    using assms(2) by (simp only: Ints_diff Ints_of_int)
  then have f: "fracVal (fracDigits 20 (frac a)) = frac a"
    using fracVal_fracDigits [of "frac a" 20] by (simp add: frac_lt_1)
  have r: "real (nat \<lfloor>a\<rfloor>) = of_int \<lfloor>a\<rfloor>" using assms(1) by simp
  have "absVal (decBody a) = real (nat \<lfloor>a\<rfloor>) + (if frac a = 0 then 0 else frac a)"
    unfolding decBody_def by (simp only: absVal_body f)
  also have "\<dots> = of_int \<lfloor>a\<rfloor> + frac a" by (simp only: r split: if_splits) simp
  also have "\<dots> = a" by (simp add: frac_def)
  finally show ?thesis .
qed

lemma decVal_decStr:
  assumes "x \<in> decimals"
  shows "decVal (decStr x) = x"
proof (cases "x < 0")
  case True
  have "- x * 10 ^ 20 = - (x * 10 ^ 20)" by simp
  then have "- x * 10 ^ 20 \<in> \<int>"
    using assms by (simp only: decimals_def mem_Collect_eq Ints_minus)
  then have "absVal (decBody (- x)) = - x"
    using absVal_decBody [of "- x"] True by simp
  then show ?thesis using True by (simp add: decStr_def decVal_def)
next
  case False
  obtain c cs where b: "decBody x = c # cs"
    using decBody_nonempty [of x] by (cases "decBody x") simp_all
  have "c \<noteq> CHR ''-''" using decBody_minus_free [of x] b by auto
  then have "decVal (decBody x) = absVal (decBody x)"
    by (simp add: decVal_def b)
  moreover have "absVal (decBody x) = x"
    using absVal_decBody [of x] assms False by (simp add: decimals_def)
  ultimately show ?thesis using False by (simp add: decStr_def)
qed

lemma decStr_inject:
  assumes "x \<in> decimals" "y \<in> decimals" "decStr x = decStr y"
  shows "x = y"
proof -
  have "x = decVal (decStr x)" using decVal_decStr [OF assms(1)] by (rule sym)
  also have "\<dots> = decVal (decStr y)" by (simp only: assms(3))
  also have "\<dots> = y" by (rule decVal_decStr [OF assms(2)])
  finally show ?thesis .
qed

lemma decStr_chars: "set (decStr x) \<subseteq> numChars"
proof -
  have "CHR ''-'' \<in> numChars" by (simp add: numChars_def)
  then show ?thesis
    using decBody_chars [of x] decBody_chars [of "- x"] by (simp add: decStr_def)
qed

lemma decStr_no_minus: "decStr b \<noteq> decStr a @ CHR ''-'' # u"
proof
  assume e: "decStr b = decStr a @ CHR ''-'' # u"
  have "decStr a \<noteq> []" by (simp add: decStr_def decBody_nonempty)
  then obtain c cs where a: "decStr a = c # cs" by (cases "decStr a") simp_all
  show False
  proof (cases "b < 0")
    case True
    then have "decBody (- b) = cs @ CHR ''-'' # u"
      using e by (simp add: a) (simp add: decStr_def)
    then have "CHR ''-'' \<in> set (decBody (- b))" by simp
    then show False using decBody_minus_free by blast
  next
    case False
    then have "decBody b = decStr a @ CHR ''-'' # u"
      using e by (simp add: decStr_def)
    then have "CHR ''-'' \<in> set (decBody b)" by simp
    then show False using decBody_minus_free by blast
  qed
qed

lemma decStr_numfmt_ok: "numfmt_ok decimals decStr"
proof -
  have "inj_on decStr decimals"
    by (rule inj_onI) (rule decStr_inject)
  then show ?thesis
    unfolding numfmt_ok_def using decStr_no_minus decStr_chars by blast
qed

lemma decBody_int: "a \<in> \<int> \<Longrightarrow> decBody a = natStr (nat \<lfloor>a\<rfloor>)"
  by (simp add: decBody_def)

lemma decStr_int: "x \<in> \<int> \<Longrightarrow> decStr x = intStr x"
  by (simp add: decStr_def intStr_def decBody_int)

lemma fracDigits_zero: "fracDigits n 0 = []"
  by (cases n) simp_all

lemma fracDigits_pos:
  "0 < n \<Longrightarrow> fracDigits n y =
     (if y = 0 then []
      else (''0123456789'' ! nat \<lfloor>10 * y\<rfloor>) # fracDigits (n - 1) (frac (10 * y)))"
  by (cases n) simp_all

lemma decStr_examples:
  "decStr 90 = ''90''" "decStr 6 = ''6''" "decStr (181 / 2) = ''90.5''"
  by (simp_all add: decStr_def decBody_def frac_def natStr.simps fracDigits_pos fracDigits_zero)

lemma decimals_examples:
  "(90::real) \<in> decimals" "(6::real) \<in> decimals" "(181 / 2 :: real) \<in> decimals"
  by (simp_all add: decimals_def)

section \<open>Properties of the alert id\<close>

lemma tail_unique:
  assumes "xs @ c # S = ys @ c' # S'"
    and "c \<notin> A" "c' \<notin> A" "set S \<subseteq> A" "set S' \<subseteq> A"
  shows "xs = ys \<and> c = c' \<and> S = S'"
  using assms
proof (induction S arbitrary: S' rule: rev_induct)
  case Nil
  show ?case
  proof (cases S' rule: rev_cases)
    case Nil
    then show ?thesis using Nil.prems(1) by simp
  next
    case (snoc S'' z)
    then have "xs @ [c] = (ys @ c' # S'') @ [z]" using Nil.prems(1) by simp
    then have "c = z" by (simp only: append1_eq_conv)
    then show ?thesis using Nil.prems(2,5) snoc by simp
  qed
next
  case (snoc z S)
  show ?case
  proof (cases S' rule: rev_cases)
    case Nil
    then have "(xs @ c # S) @ [z] = ys @ [c']" using snoc.prems(1) by simp
    then have "z = c'" by (simp only: append1_eq_conv)
    then show ?thesis using snoc.prems(3,4) by simp
  next
    case (snoc S'' z')
    then have "(xs @ c # S) @ [z] = (ys @ c' # S'') @ [z']" using snoc.prems(1) by simp
    then have e: "xs @ c # S = ys @ c' # S''" "z = z'" by (simp_all only: append1_eq_conv)
    have "xs = ys \<and> c = c' \<and> S = S''"
      using snoc.IH [OF e(1)] snoc.prems(2,3,4,5) \<open>S' = S'' @ [z']\<close> by simp
    then show ?thesis using e(2) \<open>S' = S'' @ [z']\<close> by simp
  qed
qed

lemma pair_unique:
  assumes ok: "numfmt_ok V ns" and v: "t \<in> V" "d \<in> V" "t' \<in> V" "d' \<in> V"
    and eq: "ns t @ CHR ''-'' # ns d = ns t' @ CHR ''-'' # ns d'"
  shows "t = t' \<and> d = d'"
proof -
  have inj: "inj_on ns V"
    and nopre: "\<And>a b u. a \<in> V \<Longrightarrow> b \<in> V \<Longrightarrow> ns b \<noteq> ns a @ CHR ''-'' # u"
    using ok by (auto simp: numfmt_ok_def)
  from eq consider us where "ns t = ns t' @ us" "us @ CHR ''-'' # ns d = CHR ''-'' # ns d'"
    | us where "ns t @ us = ns t'" "CHR ''-'' # ns d = us @ CHR ''-'' # ns d'"
    by (auto simp: append_eq_append_conv2)
  then have "ns t = ns t' \<and> ns d = ns d'"
  proof cases
    case 1
    show ?thesis
    proof (cases us)
      case Nil
      then show ?thesis using 1 by simp
    next
      case (Cons u us')
      then have "u = CHR ''-''" using 1(2) by simp
      then have "ns t = ns t' @ CHR ''-'' # us'" using 1(1) Cons by simp
      then show ?thesis using nopre [OF v(3) v(1)] by blast
    qed
  next
    case 2
    show ?thesis
    proof (cases us)
      case Nil
      then show ?thesis using 2 by simp
    next
      case (Cons u us')
      then have "u = CHR ''-''" using 2(2) by simp
      then have "ns t' = ns t @ CHR ''-'' # us'" using 2(1) Cons by simp
      then show ?thesis using nopre [OF v(1) v(3)] by blast
    qed
  qed
  then show ?thesis using inj v by (auto dest: inj_onD)
qed

lemma alertId_shape:
  "alertId ns i m t d =
     (i @ CHR ''-'' # butlast (metricName m)) @ last (metricName m) # (CHR ''-'' # ns t @ CHR ''-'' # ns d)"
  by (cases m) (simp_all add: alertId_def metricName_def)

lemma alertId_inject:
  assumes ok: "numfmt_ok V ns" and v: "t \<in> V" "d \<in> V" "t' \<in> V" "d' \<in> V"
    and eq: "alertId ns i m t d = alertId ns i' m' t' d'"
  shows "i = i' \<and> m = m' \<and> t = t' \<and> d = d'"
proof -
  have chars: "\<And>a. a \<in> V \<Longrightarrow> set (ns a) \<subseteq> numChars"
    using ok by (auto simp: numfmt_ok_def)
  have dash: "CHR ''-'' \<in> numChars" by (simp add: numChars_def)
  have S: "set (CHR ''-'' # ns t @ CHR ''-'' # ns d) \<subseteq> numChars"
          "set (CHR ''-'' # ns t' @ CHR ''-'' # ns d') \<subseteq> numChars"
    using chars v dash by auto
  have L: "last (metricName m) \<notin> numChars" "last (metricName m') \<notin> numChars"
    by (cases m; cases m'; simp add: metricName_def numChars_def)+
  have "(i @ CHR ''-'' # butlast (metricName m)) @ last (metricName m) # (CHR ''-'' # ns t @ CHR ''-'' # ns d) =
        (i' @ CHR ''-'' # butlast (metricName m')) @ last (metricName m') # (CHR ''-'' # ns t' @ CHR ''-'' # ns d')"
    using eq by (simp only: alertId_shape)
  from tail_unique [OF this L S]
  have e: "i @ CHR ''-'' # butlast (metricName m) = i' @ CHR ''-'' # butlast (metricName m')"
    "last (metricName m) = last (metricName m')"
    "ns t @ CHR ''-'' # ns d = ns t' @ CHR ''-'' # ns d'"
    by simp_all
  have m: "m = m'" using e(2) by (cases m; cases m'; simp add: metricName_def)
  then have i: "i = i'" using e(1) by simp
  show ?thesis using pair_unique [OF ok v e(3)] m i by simp
qed

lemma checkDevice_cpu_id_iff:
  assumes "pointsNeeded (alertDuration s) \<le> int (length (metrics device))"
  shows "(\<exists>a \<in> set (fst (checkDevice ns s device w)).
            metricType a = CPU \<and>
            alert_id a = alertId ns (dev_id device) CPU (cpuThreshold s) (alertDuration s)) \<longleftrightarrow>
         (\<forall>m \<in> set (drop (length (metrics device) - nat (pointsNeeded (alertDuration s)))
                       (metrics device)). cpu m > cpuThreshold s) \<and>
         alertId ns (dev_id device) CPU (cpuThreshold s) (alertDuration s) \<notin> dismissedAlertIds s"
proof -
  have "(\<exists>a \<in> set (fst (checkDevice ns s device w)).
            metricType a = CPU \<and>
            alert_id a = alertId ns (dev_id device) CPU (cpuThreshold s) (alertDuration s)) \<longleftrightarrow>
        (\<exists>a \<in> set (fst (checkDevice ns s device w)). metricType a = CPU)"
    using checkDevice_alert [of _ ns s device w] by force
  then show ?thesis
    by (simp only: checkDevice_cpu_iff [OF assms] cpuExceeded_window [OF assms])
qed

lemma checkDevice_ram_id_iff:
  assumes "pointsNeeded (alertDuration s) \<le> int (length (metrics device))"
  shows "(\<exists>a \<in> set (fst (checkDevice ns s device w)).
            metricType a = RAM \<and>
            alert_id a = alertId ns (dev_id device) RAM (ramThreshold s) (alertDuration s)) \<longleftrightarrow>
         (\<forall>m \<in> set (drop (length (metrics device) - nat (pointsNeeded (alertDuration s)))
                       (metrics device)). ram m > ramThreshold s) \<and>
         alertId ns (dev_id device) RAM (ramThreshold s) (alertDuration s) \<notin> dismissedAlertIds s"
proof -
  have "(\<exists>a \<in> set (fst (checkDevice ns s device w)).
            metricType a = RAM \<and>
            alert_id a = alertId ns (dev_id device) RAM (ramThreshold s) (alertDuration s)) \<longleftrightarrow>
        (\<exists>a \<in> set (fst (checkDevice ns s device w)). metricType a = RAM)"
    using checkDevice_alert [of _ ns s device w] by force
  then show ?thesis
    by (simp only: checkDevice_ram_iff [OF assms] ramExceeded_window [OF assms])
qed

text \<open>
  Claim C2. Every alert the evaluator pushes has as id the string built from the device
  id, the metric, the threshold in effect for that metric and the duration in effect, so
  two evaluations with the same four values build the same id. Conversely, with numbers
  formatted as ECMAScript formats them (\<open>numfmt_ok\<close>), two ids are equal only if all
  four values are equal: changing the threshold or the duration by any amount changes
  the id. Hence a dismissed id stands for exactly one combination. With the id of
  (device \<open>i\<close>, metric \<open>m\<close>, threshold \<open>t\<close>, duration \<open>d\<close>) dismissed on top of a set
  \<open>D\<close>, the evaluator under thresholds and duration \<open>t'\<close>, \<open>d'\<close> pushes the CPU alert of
  a device with enough history if and only if the window is above the threshold, the
  combination at hand is not that very \<open>(i, m, t, d)\<close>, and its own id is not in \<open>D\<close>;
  likewise for RAM. So the dismissal suppresses its own combination and never a
  condition of another threshold or duration.
\<close>

theorem alertId_stable:
  assumes "numfmt_ok V ns" and "t \<in> V" and "d \<in> V" and "t' \<in> V" and "d' \<in> V"
  shows "(\<forall>a \<in> set (fst (checkDevice ns s device w)).
            alert_id a = alertId ns (dev_id device) (metricType a)
                           (case metricType a of CPU \<Rightarrow> cpuThreshold s | RAM \<Rightarrow> ramThreshold s)
                           (alertDuration s)) \<and>
         (alertId ns i m t d = alertId ns i' m' t' d' \<longleftrightarrow> i = i' \<and> m = m' \<and> t = t' \<and> d = d') \<and>
         (t \<noteq> t' \<or> d \<noteq> d' \<longrightarrow> alertId ns i m t d \<noteq> alertId ns i m t' d') \<and>
         (alertId ns i' m' t' d' \<in> insert (alertId ns i m t d) D \<longleftrightarrow>
            (i' = i \<and> m' = m \<and> t' = t \<and> d' = d) \<or> alertId ns i' m' t' d' \<in> D) \<and>
         (cpuThreshold s = t' \<and> alertDuration s = d' \<and>
          dismissedAlertIds s = insert (alertId ns i m t d) D \<and>
          pointsNeeded (alertDuration s) \<le> int (length (metrics device)) \<longrightarrow>
            ((\<exists>a \<in> set (fst (checkDevice ns s device w)).
                metricType a = CPU \<and> alert_id a = alertId ns (dev_id device) CPU t' d') \<longleftrightarrow>
             (\<forall>x \<in> set (drop (length (metrics device) - nat (pointsNeeded (alertDuration s)))
                           (metrics device)). cpu x > cpuThreshold s) \<and>
             \<not> (i = dev_id device \<and> m = CPU \<and> t = t' \<and> d = d') \<and>
             alertId ns (dev_id device) CPU t' d' \<notin> D)) \<and>
         (ramThreshold s = t' \<and> alertDuration s = d' \<and>
          dismissedAlertIds s = insert (alertId ns i m t d) D \<and>
          pointsNeeded (alertDuration s) \<le> int (length (metrics device)) \<longrightarrow>
            ((\<exists>a \<in> set (fst (checkDevice ns s device w)).
                metricType a = RAM \<and> alert_id a = alertId ns (dev_id device) RAM t' d') \<longleftrightarrow>
             (\<forall>x \<in> set (drop (length (metrics device) - nat (pointsNeeded (alertDuration s)))
                           (metrics device)). ram x > ramThreshold s) \<and>
             \<not> (i = dev_id device \<and> m = RAM \<and> t = t' \<and> d = d') \<and>
             alertId ns (dev_id device) RAM t' d' \<notin> D))"
proof -
  have inj: "alertId ns a x t d = alertId ns b y t' d' \<longleftrightarrow> a = b \<and> x = y \<and> t = t' \<and> d = d'"
    for a x b y
    using alertId_inject [OF assms] by blast
  have 0: "\<forall>a \<in> set (fst (checkDevice ns s device w)).
            alert_id a = alertId ns (dev_id device) (metricType a)
                           (case metricType a of CPU \<Rightarrow> cpuThreshold s | RAM \<Rightarrow> ramThreshold s)
                           (alertDuration s)"
    using checkDevice_alert by blast
  have 1: "alertId ns i m t d = alertId ns i' m' t' d' \<longleftrightarrow> i = i' \<and> m = m' \<and> t = t' \<and> d = d'"
    by (rule inj)
  have 2: "t \<noteq> t' \<or> d \<noteq> d' \<longrightarrow> alertId ns i m t d \<noteq> alertId ns i m t' d'"
    using inj [of i m i m] by blast
  have mem: "alertId ns b y t' d' \<in> insert (alertId ns i m t d) D \<longleftrightarrow>
            (b = i \<and> y = m \<and> t' = t \<and> d' = d) \<or> alertId ns b y t' d' \<in> D" for b y
  proof -
    have "alertId ns b y t' d' = alertId ns i m t d \<longleftrightarrow> b = i \<and> y = m \<and> t' = t \<and> d' = d"
      using inj [of i m b y] by auto
    then show ?thesis by simp
  qed
  have 3: "alertId ns i' m' t' d' \<in> insert (alertId ns i m t d) D \<longleftrightarrow>
            (i' = i \<and> m' = m \<and> t' = t \<and> d' = d) \<or> alertId ns i' m' t' d' \<in> D"
    by (rule mem)
  have 4: "cpuThreshold s = t' \<and> alertDuration s = d' \<and>
          dismissedAlertIds s = insert (alertId ns i m t d) D \<and>
          pointsNeeded (alertDuration s) \<le> int (length (metrics device)) \<longrightarrow>
            ((\<exists>a \<in> set (fst (checkDevice ns s device w)).
                metricType a = CPU \<and> alert_id a = alertId ns (dev_id device) CPU t' d') \<longleftrightarrow>
             (\<forall>x \<in> set (drop (length (metrics device) - nat (pointsNeeded (alertDuration s)))
                           (metrics device)). cpu x > cpuThreshold s) \<and>
             \<not> (i = dev_id device \<and> m = CPU \<and> t = t' \<and> d = d') \<and>
             alertId ns (dev_id device) CPU t' d' \<notin> D)"
  proof (intro impI, elim conjE)
    assume c: "cpuThreshold s = t'" "alertDuration s = d'"
      "dismissedAlertIds s = insert (alertId ns i m t d) D"
      "pointsNeeded (alertDuration s) \<le> int (length (metrics device))"
    have k: "(\<exists>a \<in> set (fst (checkDevice ns s device w)).
                metricType a = CPU \<and> alert_id a = alertId ns (dev_id device) CPU t' d') \<longleftrightarrow>
             (\<forall>x \<in> set (drop (length (metrics device) - nat (pointsNeeded (alertDuration s)))
                           (metrics device)). cpu x > cpuThreshold s) \<and>
             alertId ns (dev_id device) CPU t' d' \<notin> insert (alertId ns i m t d) D"
      using checkDevice_cpu_id_iff [OF c(4), of ns w] by (simp only: c(1,2,3))
    have e: "alertId ns (dev_id device) CPU t' d' \<notin> insert (alertId ns i m t d) D \<longleftrightarrow>
          \<not> (i = dev_id device \<and> m = CPU \<and> t = t' \<and> d = d') \<and>
          alertId ns (dev_id device) CPU t' d' \<notin> D"
      by (simp only: mem [of "dev_id device" CPU] de_Morgan_disj) (simp only: eq_commute)
    show "(\<exists>a \<in> set (fst (checkDevice ns s device w)).
                metricType a = CPU \<and> alert_id a = alertId ns (dev_id device) CPU t' d') \<longleftrightarrow>
             (\<forall>x \<in> set (drop (length (metrics device) - nat (pointsNeeded (alertDuration s)))
                           (metrics device)). cpu x > cpuThreshold s) \<and>
             \<not> (i = dev_id device \<and> m = CPU \<and> t = t' \<and> d = d') \<and>
             alertId ns (dev_id device) CPU t' d' \<notin> D"
      by (simp only: k e)
  qed
  have 5: "ramThreshold s = t' \<and> alertDuration s = d' \<and>
          dismissedAlertIds s = insert (alertId ns i m t d) D \<and>
          pointsNeeded (alertDuration s) \<le> int (length (metrics device)) \<longrightarrow>
            ((\<exists>a \<in> set (fst (checkDevice ns s device w)).
                metricType a = RAM \<and> alert_id a = alertId ns (dev_id device) RAM t' d') \<longleftrightarrow>
             (\<forall>x \<in> set (drop (length (metrics device) - nat (pointsNeeded (alertDuration s)))
                           (metrics device)). ram x > ramThreshold s) \<and>
             \<not> (i = dev_id device \<and> m = RAM \<and> t = t' \<and> d = d') \<and>
             alertId ns (dev_id device) RAM t' d' \<notin> D)"
  proof (intro impI, elim conjE)
    assume c: "ramThreshold s = t'" "alertDuration s = d'"
      "dismissedAlertIds s = insert (alertId ns i m t d) D"
      "pointsNeeded (alertDuration s) \<le> int (length (metrics device))"
    have k: "(\<exists>a \<in> set (fst (checkDevice ns s device w)).
                metricType a = RAM \<and> alert_id a = alertId ns (dev_id device) RAM t' d') \<longleftrightarrow>
             (\<forall>x \<in> set (drop (length (metrics device) - nat (pointsNeeded (alertDuration s)))
                           (metrics device)). ram x > ramThreshold s) \<and>
             alertId ns (dev_id device) RAM t' d' \<notin> insert (alertId ns i m t d) D"
      using checkDevice_ram_id_iff [OF c(4), of ns w] by (simp only: c(1,2,3))
    have e: "alertId ns (dev_id device) RAM t' d' \<notin> insert (alertId ns i m t d) D \<longleftrightarrow>
          \<not> (i = dev_id device \<and> m = RAM \<and> t = t' \<and> d = d') \<and>
          alertId ns (dev_id device) RAM t' d' \<notin> D"
      by (simp only: mem [of "dev_id device" RAM] de_Morgan_disj) (simp only: eq_commute)
    show "(\<exists>a \<in> set (fst (checkDevice ns s device w)).
                metricType a = RAM \<and> alert_id a = alertId ns (dev_id device) RAM t' d') \<longleftrightarrow>
             (\<forall>x \<in> set (drop (length (metrics device) - nat (pointsNeeded (alertDuration s)))
                           (metrics device)). ram x > ramThreshold s) \<and>
             \<not> (i = dev_id device \<and> m = RAM \<and> t = t' \<and> d = d') \<and>
             alertId ns (dev_id device) RAM t' d' \<notin> D"
      by (simp only: k e)
  qed
  show ?thesis
    by (rule conjI [OF 0 conjI [OF 1 conjI [OF 2 conjI [OF 3 conjI [OF 4 5]]]]])
qed

text \<open>
  With the alert of threshold 90 dismissed, raising the threshold to 90.5 gives a
  condition with another id, which the evaluator pushes; at threshold 90 it pushes none.
\<close>

theorem alertId_stable_witness:
  "numfmt_ok decimals decStr \<and>
   alertId decStr ''dev-0'' CPU 90 6 = ''dev-0-CPU-90-6'' \<and>
   alertId decStr ''dev-0'' CPU (181 / 2) 6 = ''dev-0-CPU-90.5-6'' \<and>
   alertId decStr ''dev-0'' CPU 90 6 \<noteq> alertId decStr ''dev-0'' CPU (181 / 2) 6 \<and>
   dismissedAlertIds state6_raised = {''dev-0-CPU-90-6''} \<and>
   cpuThreshold state6_raised = 181 / 2 \<and>
   (\<exists>a \<in> set (fst (checkDevice decStr state6_raised device1 world0)).
      metricType a = CPU \<and> alert_id a = ''dev-0-CPU-90.5-6'') \<and>
   dismissedAlertIds state6_dismissed = {''dev-0-CPU-90-6''} \<and>
   cpuThreshold state6_dismissed = 90 \<and>
   \<not> (\<exists>a \<in> set (fst (checkDevice decStr state6_dismissed device1 world0)).
      metricType a = CPU \<and> alert_id a = ''dev-0-CPU-90-6'')"
proof -
  note v = decimals_examples
  have k: "alertId decStr ''dev-0'' CPU 90 6 = ''dev-0-CPU-90-6''"
          "alertId decStr ''dev-0'' CPU (181 / 2) 6 = ''dev-0-CPU-90.5-6''"
    by (simp_all add: alertId_def metricName_def decStr_examples)
  have dev: "dev_id device1 = ''dev-0''" "metrics device1 = [sample 95 40, sample 97 45]"
    by (simp_all add: device1_def device0_def)
  have r: "cpuThreshold state6_raised = 181 / 2" "alertDuration state6_raised = 6"
    "dismissedAlertIds state6_raised = insert (alertId decStr ''dev-0'' CPU 90 6) {}"
    by (simp_all add: state6_raised_def state6_def initialState_def k)
  have q: "cpuThreshold state6_dismissed = 90" "alertDuration state6_dismissed = 6"
    "dismissedAlertIds state6_dismissed = insert (alertId decStr ''dev-0'' CPU 90 6) {}"
    by (simp_all add: state6_dismissed_def state6_def initialState_def k)
  have pn: "pointsNeeded 6 = 2" by (simp add: pointsNeeded_def)
  have g: "pointsNeeded (alertDuration state6_raised) \<le> int (length (metrics device1))"
          "pointsNeeded (alertDuration state6_dismissed) \<le> int (length (metrics device1))"
    by (simp_all add: r q pn dev)
  have win: "\<forall>x \<in> set (drop (length (metrics device1) - nat (pointsNeeded (alertDuration state6_raised)))
                           (metrics device1)). cpu x > cpuThreshold state6_raised"
    by (simp add: r pn dev sample_def)
  note T1 = alertId_stable [OF decStr_numfmt_ok v(1) v(2) v(3) v(2),
      where i = "''dev-0''" and m = CPU and D = "{}" and s = state6_raised and device = device1
        and w = world0 and i' = "''dev-0''" and m' = CPU]
  note T2 = alertId_stable [OF decStr_numfmt_ok v(1) v(2) v(1) v(2),
      where i = "''dev-0''" and m = CPU and D = "{}" and s = state6_dismissed and device = device1
        and w = world0 and i' = "''dev-0''" and m' = CPU]
  have ne: "(90::real) \<noteq> 181 / 2" by simp
  note T1c = T1 [THEN conjunct2, THEN conjunct2, THEN conjunct1]
  have a: "alertId decStr ''dev-0'' CPU 90 6 \<noteq> alertId decStr ''dev-0'' CPU (181 / 2) 6"
    using T1c ne by blast
  have h1: "cpuThreshold state6_raised = 181 / 2 \<and> alertDuration state6_raised = 6 \<and>
          dismissedAlertIds state6_raised = insert (alertId decStr ''dev-0'' CPU 90 6) {} \<and>
          pointsNeeded (alertDuration state6_raised) \<le> int (length (metrics device1))"
    using r g(1) by blast
  note T1e = T1 [THEN conjunct2, THEN conjunct2, THEN conjunct2, THEN conjunct2, THEN conjunct1,
      THEN mp, OF h1]
  have rhs1: "(\<forall>x \<in> set (drop (length (metrics device1) - nat (pointsNeeded (alertDuration state6_raised)))
                           (metrics device1)). cpu x > cpuThreshold state6_raised) \<and>
             \<not> (''dev-0'' = dev_id device1 \<and> CPU = CPU \<and> (90::real) = 181 / 2 \<and> (6::real) = 6) \<and>
             alertId decStr (dev_id device1) CPU (181 / 2) 6 \<notin> {}"
    using win ne by blast
  have b: "\<exists>a \<in> set (fst (checkDevice decStr state6_raised device1 world0)).
      metricType a = CPU \<and> alert_id a = alertId decStr (dev_id device1) CPU (181 / 2) 6"
    using T1e rhs1 by (rule iffD2)
  have h2: "cpuThreshold state6_dismissed = 90 \<and> alertDuration state6_dismissed = 6 \<and>
          dismissedAlertIds state6_dismissed = insert (alertId decStr ''dev-0'' CPU 90 6) {} \<and>
          pointsNeeded (alertDuration state6_dismissed) \<le> int (length (metrics device1))"
    using q g(2) by blast
  note T2e = T2 [THEN conjunct2, THEN conjunct2, THEN conjunct2, THEN conjunct2, THEN conjunct1,
      THEN mp, OF h2]
  have same: "''dev-0'' = dev_id device1 \<and> CPU = CPU \<and> (90::real) = 90 \<and> (6::real) = 6"
    by (simp add: dev(1))
  have c: "\<not> (\<exists>a \<in> set (fst (checkDevice decStr state6_dismissed device1 world0)).
      metricType a = CPU \<and> alert_id a = alertId decStr (dev_id device1) CPU 90 6)"
  proof
    assume "\<exists>a \<in> set (fst (checkDevice decStr state6_dismissed device1 world0)).
      metricType a = CPU \<and> alert_id a = alertId decStr (dev_id device1) CPU 90 6"
    then have "\<not> (''dev-0'' = dev_id device1 \<and> CPU = CPU \<and> (90::real) = 90 \<and> (6::real) = 6)"
      using T2e by blast
    then show False using same by blast
  qed
  note a' = a [unfolded k]
  note b' = b [unfolded dev(1) k]
  note c' = c [unfolded dev(1) k]
  note r3 = r(3) [unfolded k]
  note q3 = q(3) [unfolded k]
  show ?thesis
    unfolding k
    by (intro conjI) (rule decStr_numfmt_ok refl a' r3 r(1) b' q3 q(1) c')+
qed

section \<open>The status roll\<close>

lemma rollStatus_cases:
  "rollStatus roll st = WARNING \<or> rollStatus roll st = ONLINE \<or> rollStatus roll st = st"
  by (simp add: rollStatus_def)

text \<open>
  Claim C8 (the code does not do this). The branches for ERROR and OFFLINE come after the
  test \<open>roll > 0.98\<close>, which every roll above 0.995 or 0.999 passes, so they are never
  taken: a roll of 0.997 or 0.9995 gives WARNING, and for every roll the new status is
  WARNING, ONLINE or the old status. No roll enters ERROR or OFFLINE; the same holds of
  the status \<^verbatim>\<open>updateDevices\<close> gives a device.
\<close>

theorem rollStatus_never_error:
  "rollStatus (997 / 1000) ONLINE = WARNING \<and>
   rollStatus (9995 / 10000) ONLINE = WARNING \<and>
   (rollStatus roll st = WARNING \<or> rollStatus roll st = ONLINE \<or> rollStatus roll st = st) \<and>
   (status (fst (updateDevice d w)) = WARNING \<or> status (fst (updateDevice d w)) = ONLINE \<or>
    status (fst (updateDevice d w)) = status d)"
proof -
  have "status (fst (updateDevice d w)) = rollStatus (fst (Math_random w)) (status d)"
    by (simp add: updateDevice_def split_beta Let_def)
  then show ?thesis
    using rollStatus_cases [of roll st] rollStatus_cases [of "fst (Math_random w)" "status d"]
    by (simp add: rollStatus_def)
qed

section \<open>Threshold configuration\<close>

lemma step_SetCpuThreshold: "cpuThreshold (fst (step ns (SetCpuThreshold v) (s, w))) = v"
  by (simp add: alertEffect_rest)

lemma step_SetRamThreshold: "ramThreshold (fst (step ns (SetRamThreshold v) (s, w))) = v"
  by (simp add: alertEffect_rest)

lemma step_SetAlertDuration: "alertDuration (fst (step ns (SetAlertDuration v) (s, w))) = v"
  by (simp add: alertEffect_rest)

lemma pointsNeeded_small: "v \<le> 3 \<Longrightarrow> pointsNeeded v = 1"
proof -
  assume "v \<le> 3"
  then have "v / 3 \<le> 1" by simp
  then have "\<lceil>v / 3\<rceil> \<le> 1" by (simp add: ceiling_le_iff)
  then show ?thesis by (simp add: pointsNeeded_def)
qed

text \<open>
  Claim C9, amended. The three input handlers do not validate: whatever number is entered
  becomes the new cpuThreshold, ramThreshold or alertDuration, and the alert effect that
  follows evaluates with it. A duration of at most 3 seconds, so also a zero or negative
  one, gives the minimal window of one sample.
\<close>

theorem config_applied:
  "cpuThreshold (fst (step ns (SetCpuThreshold v) (s, w))) = v \<and>
   ramThreshold (fst (step ns (SetRamThreshold v) (s, w))) = v \<and>
   alertDuration (fst (step ns (SetAlertDuration v) (s, w))) = v \<and>
   (v \<noteq> cpuThreshold s \<longrightarrow>
      step ns (SetCpuThreshold v) (s, w) = alertEffect ns (s\<lparr>cpuThreshold := v\<rparr>) w) \<and>
   (v \<noteq> ramThreshold s \<longrightarrow>
      step ns (SetRamThreshold v) (s, w) = alertEffect ns (s\<lparr>ramThreshold := v\<rparr>) w) \<and>
   (v \<noteq> alertDuration s \<longrightarrow>
      step ns (SetAlertDuration v) (s, w) = alertEffect ns (s\<lparr>alertDuration := v\<rparr>) w) \<and>
   (v \<le> 3 \<longrightarrow> pointsNeeded v = 1)"
  using step_SetCpuThreshold [of ns v s w] step_SetRamThreshold [of ns v s w]
    step_SetAlertDuration [of ns v s w] pointsNeeded_small [of v]
  by simp

theorem config_applied_witness:
  "(- 60 :: real) \<noteq> cpuThreshold initialState \<and> (- 60 :: real) \<noteq> ramThreshold initialState \<and>
   (- 60 :: real) \<noteq> alertDuration initialState \<and> (- 60 :: real) \<le> 3 \<and>
   cpuThreshold (fst (step intStr (SetCpuThreshold (- 60)) (initialState, world0))) = - 60 \<and>
   ramThreshold (fst (step intStr (SetRamThreshold (- 60)) (initialState, world0))) = - 60 \<and>
   alertDuration (fst (step intStr (SetAlertDuration (- 60)) (initialState, world0))) = - 60 \<and>
   pointsNeeded (- 60) = 1"
  using config_applied [where ns = intStr and v = "- 60" and s = initialState and w = world0]
  by (simp add: initialState_def)

lemma intStr_minus5: "intStr (- 5) = ''-5''"
  by (simp add: intStr_def natStr.simps)

text \<open>
  Entering \<open>- 5\<close> as CPU threshold, or \<open>- 60\<close> as duration, is not rejected: the value
  is stored, the earlier value (90, or 6) is not kept, and the evaluation that follows
  raises an alert with the new value in its id.
\<close>

theorem config_rejected_counterexample:
  "step intStr (SetCpuThreshold (- 5)) (state6_devices, world0) =
     (state6_devices
        \<lparr>cpuThreshold := - 5,
         activeAlerts :=
           [\<lparr>alert_id = ''dev-0-CPU--5-6'', deviceId = ''dev-0'', deviceName = ''US-WEST-SRV-01'',
             metricType = CPU, alert_value = 97, alert_timestamp = 1000\<rparr>]\<rparr>,
      world0\<lparr>cpos := 1\<rparr>) \<and>
   cpuThreshold state6_devices = 90 \<and>
   fst (step intStr (SetAlertDuration (- 60)) (state6_devices, world0)) =
     state6_devices
        \<lparr>alertDuration := - 60,
         activeAlerts :=
           [\<lparr>alert_id = ''dev-0-CPU-90--60'', deviceId = ''dev-0'', deviceName = ''US-WEST-SRV-01'',
             metricType = CPU, alert_value = 97, alert_timestamp = 1000\<rparr>]\<rparr>"
  by (simp add: state6_devices_def example_defs eval_defs alertEffect_def mergeAlerts_def
      intStr_minus5)

end
